theory Spec2Isabelle
  imports
    Main
    "HOL-Library.AList"
    "HOL-Library.Char_ord"
    "HOL-Library.List_Lexorder"
begin

section \<open>Time, as the registry reads it\<close>

text \<open>
  A Go \<open>time.Time\<close> is modelled by the number of nanoseconds since the Unix epoch, an
  unbounded \<open>int\<close> (Go keeps 64-bit seconds plus nanoseconds, so a wall clock never
  leaves the exact range). A \<open>time.Duration\<close> is an \<open>int64\<close> of nanoseconds: its
  unary minus wraps at the smallest value, which \<open>neg64\<close> writes out.
  \<open>Time.Add\<close> adds exactly; \<open>Time.Unix\<close> is the floor to whole seconds.
\<close>

type_synonym Time = int
type_synonym Duration = int

definition wrap64 :: "int \<Rightarrow> int" where
  "wrap64 x = (x + 2 ^ 63) mod 2 ^ 64 - 2 ^ 63"

definition neg64 :: "Duration \<Rightarrow> Duration" where
  "neg64 d = wrap64 (- d)"

text \<open>A duration whose negation does not overflow: any \<open>int64\<close> but the smallest.\<close>

definition duration_ok :: "Duration \<Rightarrow> bool" where
  "duration_ok d = (- (2 ^ 63) < d \<and> d < 2 ^ 63)"

definition Add :: "Time \<Rightarrow> Duration \<Rightarrow> Time" where
  "Add t d = t + d"

definition Unix :: "Time \<Rightarrow> int" where
  "Unix t = t div 1000000000"

section \<open>Formatting an address\<close>

text \<open>\<open>fmt.Sprintf("%s:%d", ip, port)\<close>: the host, a colon, the port in decimal.\<close>

text \<open>\<open>digit_char\<close> is only applied to a digit below ten.\<close>

definition digit_char :: "nat \<Rightarrow> char" where
  "digit_char d = ''0123456789'' ! d"

function utoa :: "nat \<Rightarrow> string" where
  "utoa n = (if n < 10 then [digit_char n] else utoa (n div 10) @ [digit_char (n mod 10)])"
  by pat_completeness auto
termination
  by (relation "measure id") auto

declare utoa.simps [simp del]

definition itoa :: "int \<Rightarrow> string" where
  "itoa i = (if i < 0 then CHR ''-'' # utoa (nat (- i)) else utoa (nat i))"

definition Sprintf_addr :: "string \<Rightarrow> int \<Rightarrow> string" where
  "Sprintf_addr ip port = ip @ '':'' @ itoa port"

section \<open>Configuration and the registry\<close>

record Config =
  Port :: int
  AllowedUserAgent :: string
  StaleTimeout :: Duration
  Blacklist :: "(string \<times> bool) list"
  OfficialServers :: "string list"
  LogFile :: string
  LogEnabled :: bool

text \<open>
  \<open>Entries\<close> is a Go \<open>map[string]int64\<close>: an association list whose keys are
  distinct (\<open>entries_ok\<close>). The order of the list stands for the unspecified order in
  which Go ranges over the map.
\<close>

record ServerList =
  Entries :: "(string \<times> int) list"
  Config :: Config

definition entries_ok :: "ServerList \<Rightarrow> bool" where
  "entries_ok s = distinct (map fst (Entries s))"

definition NewServerList :: "Config \<Rightarrow> ServerList" where
  "NewServerList cfg = \<lparr>Entries = [], Config = cfg\<rparr>"

text \<open>\<open>Report\<close> stores the clock reading \<open>now\<close>, taken under the lock.\<close>

definition Report :: "ServerList \<Rightarrow> string \<Rightarrow> int \<Rightarrow> Time \<Rightarrow> ServerList" where
  "Report s ip port now =
     (let addr = Sprintf_addr ip port
      in s\<lparr>Entries := AList.update addr (Unix now) (Entries s)\<rparr>)"

definition GetActive :: "ServerList \<Rightarrow> Time \<Rightarrow> string list" where
  "GetActive s now =
     (let cutoff = Unix (Add now (neg64 (StaleTimeout (Config s))));
          activeMap = fold (\<lambda>(addr, ts) m. if ts \<ge> cutoff then AList.update addr True m else m)
                        (Entries s) [];
          activeMap = fold (\<lambda>addr m. AList.update addr True m)
                        (OfficialServers (Config s)) activeMap;
          list = fold (\<lambda>(addr, _) l. l @ [addr]) activeMap []
      in sort list)"

text \<open>
  One tick of \<open>cleanupLoop\<close>: the body of its \<open>for range ticker.C\<close> loop, which
  ranges over the map and deletes from it.
\<close>

definition cleanupTick :: "ServerList \<Rightarrow> Time \<Rightarrow> ServerList" where
  "cleanupTick s now =
     (let cutoff = Unix (Add now (neg64 (StaleTimeout (Config s))))
      in s\<lparr>Entries := fold (\<lambda>(addr, ts) m. if ts < cutoff then AList.delete addr m else m)
                         (Entries s) (Entries s)\<rparr>)"

section \<open>Runs of the registry\<close>

text \<open>
  The registry changes through two operations only, each atomic under the lock: a
  \<open>Report\<close> and a tick of the sweep. A step carries the clock reading of its
  \<open>time.Now()\<close>; a run applies a list of steps in order.
\<close>

datatype Step = StepReport string int | StepSweep

fun step :: "ServerList \<Rightarrow> Time \<times> Step \<Rightarrow> ServerList" where
  "step s (now, StepReport ip port) = Report s ip port now"
| "step s (now, StepSweep) = cleanupTick s now"

definition run :: "ServerList \<Rightarrow> (Time \<times> Step) list \<Rightarrow> ServerList" where
  "run s evs = foldl step s evs"

definition sweeps :: "ServerList \<Rightarrow> Time list \<Rightarrow> ServerList" where
  "sweeps s ticks = foldl cleanupTick s ticks"

section \<open>Library functions the server calls\<close>

text \<open>
  Functions of the Go standard library whose result the code only tests, and whose
  source is not part of the repository, are parameters: \<open>ParseIP s\<close> stands for
  \<open>net.ParseIP(s) != nil\<close>, \<open>ParseDuration\<close> for \<open>time.ParseDuration\<close> (\<open>None\<close> on
  error), \<open>TrimSpace\<close> for \<open>strings.TrimSpace\<close>, \<open>Clean\<close>, \<open>IsAbs\<close> and \<open>Dir\<close> for
  the functions of \<open>path/filepath\<close>, \<open>Unmarshal\<close> and \<open>MarshalIndent\<close> for those of
  \<open>encoding/json\<close> on a \<open>jsonConfig\<close>. Every theorem holds for all of their values.
  The fields of \<open>jsonConfig\<close> carry a \<open>j\<close>: its Go names are those of \<open>Config\<close>.
\<close>

record jsonConfig =
  jPort :: int
  jAllowedUserAgent :: string
  jStaleTimeout :: string
  jBlacklist :: "string list"
  jOfficialServers :: "string list"
  jLogFile :: string
  jLogEnabled :: bool

record Lib =
  ParseIP :: "string \<Rightarrow> bool"
  ParseDuration :: "string \<Rightarrow> Duration option"
  TrimSpace :: "string \<Rightarrow> string"
  Clean :: "string \<Rightarrow> string"
  IsAbs :: "string \<Rightarrow> bool"
  Dir :: "string \<Rightarrow> string"
  Unmarshal :: "string \<Rightarrow> jsonConfig option"
  MarshalIndent :: "jsonConfig \<Rightarrow> string option"

text \<open>
  The small ones are written out. \<open>IndexByte\<close> and \<open>LastIndexByte\<close> give the first and
  the last position of a byte; \<open>Contains\<close> is \<open>strings.Contains\<close>.
\<close>

fun IndexByte :: "string \<Rightarrow> char \<Rightarrow> nat option" where
  "IndexByte [] c = None"
| "IndexByte (x # xs) c = (if x = c then Some 0 else map_option Suc (IndexByte xs c))"

definition LastIndexByte :: "string \<Rightarrow> char \<Rightarrow> nat option" where
  "LastIndexByte s c =
     (case IndexByte (rev s) c of None \<Rightarrow> None | Some j \<Rightarrow> Some (length s - 1 - j))"

fun Contains :: "string \<Rightarrow> string \<Rightarrow> bool" where
  "Contains [] substr = (substr = [])"
| "Contains (x # xs) substr = (take (length substr) (x # xs) = substr \<or> Contains xs substr)"

text \<open>
  \<open>net.SplitHostPort\<close>, after \<open>net/ipsock.go\<close>: the port starts after the last colon; a
  host in brackets must end just before that colon; a host without brackets has no
  colon of its own; no further bracket may occur. The error, which the server only
  tests against \<open>nil\<close>, is \<open>None\<close>.
\<close>

definition SplitHostPort :: "string \<Rightarrow> (string \<times> string) option" where
  "SplitHostPort hostport =
     (case LastIndexByte hostport CHR '':'' of
        None \<Rightarrow> None
      | Some i \<Rightarrow>
          if hostport ! 0 = CHR ''[''
          then (case IndexByte hostport CHR '']'' of
                  None \<Rightarrow> None
                | Some end \<Rightarrow>
                    if end + 1 = length hostport then None
                    else if end + 1 = i
                    then (if IndexByte (drop 1 hostport) CHR ''['' \<noteq> None then None
                          else if IndexByte (drop (end + 1) hostport) CHR '']'' \<noteq> None then None
                          else Some (take (end - 1) (drop 1 hostport), drop (i + 1) hostport))
                    else None)
          else (let host = take i hostport
                in if IndexByte host CHR '':'' \<noteq> None then None
                   else if IndexByte hostport CHR ''['' \<noteq> None then None
                   else if IndexByte hostport CHR '']'' \<noteq> None then None
                   else Some (host, drop (i + 1) hostport)))"

text \<open>
  \<open>strconv.Atoi\<close>: an optional sign, then one or more decimal digits, with a value that
  fits \<open>int64\<close>; anything else is an error.
\<close>

definition is_digit :: "char \<Rightarrow> bool" where
  "is_digit c = (c \<in> set ''0123456789'')"

definition digit_val :: "char \<Rightarrow> nat" where
  "digit_val c = (case IndexByte ''0123456789'' c of Some d \<Rightarrow> d | None \<Rightarrow> 0)"

definition parse_digits :: "string \<Rightarrow> nat option" where
  "parse_digits s =
     (if s = [] \<or> \<not> list_all is_digit s then None
      else Some (foldl (\<lambda>n c. 10 * n + digit_val c) 0 s))"

definition Atoi :: "string \<Rightarrow> int option" where
  "Atoi s =
     (let (neg, ds) = (case s of
                         [] \<Rightarrow> (False, s)
                       | c # r \<Rightarrow> if c = CHR ''-'' then (True, r)
                                  else if c = CHR ''+'' then (False, r) else (False, s))
      in case parse_digits ds of
           None \<Rightarrow> None
         | Some n \<Rightarrow>
             (let v = (if neg then - int n else int n)
              in if v < - (2 ^ 63) \<or> v > 2 ^ 63 - 1 then None else Some v))"

text \<open>\<open>strconv.ParseBool\<close> accepts twelve spellings.\<close>

definition ParseBool :: "string \<Rightarrow> bool option" where
  "ParseBool str =
     (if str \<in> set [''1'', ''t'', ''T'', ''TRUE'', ''true'', ''True''] then Some True
      else if str \<in> set [''0'', ''f'', ''F'', ''FALSE'', ''false'', ''False''] then Some False
      else None)"

section \<open>The HTTP surface\<close>

text \<open>
  A request, as far as the handlers read it: the method, the \<open>User-Agent\<close> header, the
  remote address, and the outcome of \<open>ParseForm\<close> on the body capped at 1 KB (\<open>None\<close>
  when it fails, else the first value of each field). A response is its status code.
\<close>

record Request =
  Method :: string
  UserAgent :: string
  RemoteAddr :: string
  Form :: "(string \<times> string) list option"

definition FormValue :: "(string \<times> string) list \<Rightarrow> string \<Rightarrow> string" where
  "FormValue form key = (case map_of form key of None \<Rightarrow> [] | Some v \<Rightarrow> v)"

text \<open>\<open>cfg.Blacklist[ip]\<close>: a missing key reads as \<open>false\<close>.\<close>

definition blacklisted :: "Config \<Rightarrow> string \<Rightarrow> bool" where
  "blacklisted cfg ip = (case map_of (Blacklist cfg) ip of None \<Rightarrow> False | Some b \<Rightarrow> b)"

text \<open>
  The state the handlers share: the registry and the map of the rate limiter. Go's
  integer division \<open>now / 60\<close> truncates towards zero.
\<close>

record App =
  servers :: ServerList
  rateLimitMap :: "(string \<times> int list) list"

definition maxRequestsPerMinute :: nat where
  "maxRequestsPerMinute = 60"

definition quot :: "int \<Rightarrow> int \<Rightarrow> int" where
  "quot a b = sgn a * sgn b * (\<bar>a\<bar> div \<bar>b\<bar>)"

definition checkRateLimit ::
    "(string \<times> int list) list \<Rightarrow> string \<Rightarrow> Time \<Rightarrow> bool \<times> (string \<times> int list) list" where
  "checkRateLimit rl ip clock =
     (let now = Unix clock; minute = quot now 60
      in case map_of rl ip of
           Some times' \<Rightarrow>
             (let newTimes = filter (\<lambda>t. t \<ge> minute - 1) times';
                  rl1 = AList.update ip newTimes rl;
                  count = length (filter (\<lambda>t. t = minute) newTimes)
              in if count \<ge> maxRequestsPerMinute then (False, rl1)
                 else (True, AList.update ip (newTimes @ [minute]) rl1))
         | None \<Rightarrow> (True, AList.update ip [minute] rl))"

text \<open>
  \<open>securityMiddleware\<close> wraps every handler: it splits the remote address, answers 400
  when that fails and 429 when the rate limit is exceeded, and calls the handler
  otherwise. \<open>clockRL\<close> is the clock reading of the rate limiter, \<open>clock\<close> the one the
  handler takes.
\<close>

definition securityMiddleware ::
    "(App \<Rightarrow> Request \<Rightarrow> Time \<Rightarrow> nat \<times> App) \<Rightarrow> App \<Rightarrow> Request \<Rightarrow> Time \<Rightarrow> Time \<Rightarrow> nat \<times> App" where
  "securityMiddleware next app r clockRL clock =
     (case SplitHostPort (RemoteAddr r) of
        None \<Rightarrow> (400, app)
      | Some (ip, _) \<Rightarrow>
          (case checkRateLimit (rateLimitMap app) ip clockRL of
             (ok, rl) \<Rightarrow>
               if \<not> ok then (429, app\<lparr>rateLimitMap := rl\<rparr>)
               else next (app\<lparr>rateLimitMap := rl\<rparr>) r clock))"

text \<open>The handler of \<open>/report.php\<close>, in the order of its checks.\<close>

definition reportHandler :: "Lib \<Rightarrow> Config \<Rightarrow> App \<Rightarrow> Request \<Rightarrow> Time \<Rightarrow> nat \<times> App" where
  "reportHandler lib cfg app r clock =
     (if Method r \<noteq> ''POST'' then (405, app)
      else if UserAgent r \<noteq> AllowedUserAgent cfg then (403, app)
      else case Form r of
        None \<Rightarrow> (400, app)
      | Some form \<Rightarrow>
          (let portStr = FormValue form ''port''
           in if portStr = [] then (400, app)
              else case Atoi portStr of
                None \<Rightarrow> (400, app)
              | Some port \<Rightarrow>
                  if port < 1024 \<or> port > 65535 then (400, app)
                  else case SplitHostPort (RemoteAddr r) of
                    None \<Rightarrow> (200, app)
                  | Some (ip, _) \<Rightarrow>
                      if blacklisted cfg ip then (200, app)
                      else if \<not> ParseIP lib ip then (400, app)
                      else (200, app\<lparr>servers := Report (servers app) ip port clock\<rparr>)))"

definition report_php :: "Lib \<Rightarrow> Config \<Rightarrow> App \<Rightarrow> Request \<Rightarrow> Time \<Rightarrow> Time \<Rightarrow> nat \<times> App" where
  "report_php lib cfg = securityMiddleware (reportHandler lib cfg)"

text \<open>
  The four other endpoints answer 405 to anything but \<open>GET\<close> and read the registry
  without writing it; of their responses the model keeps the status.
\<close>

definition getHandler :: "App \<Rightarrow> Request \<Rightarrow> Time \<Rightarrow> nat \<times> App" where
  "getHandler app r clock = (if Method r \<noteq> ''GET'' then (405, app) else (200, app))"

definition get_endpoint :: "App \<Rightarrow> Request \<Rightarrow> Time \<Rightarrow> Time \<Rightarrow> nat \<times> App" where
  "get_endpoint = securityMiddleware getHandler"

text \<open>
  What happens to a running server: a request to \<open>/report.php\<close>, a request to another
  endpoint, or a tick of the sweep. \<open>serve\<close> starts from \<open>NewServerList cfg\<close> and an
  empty rate-limit map, as \<open>main\<close> does.
\<close>

datatype Event =
    EvReport Request Time Time
  | EvGet Request Time Time
  | EvTick Time

fun handle :: "Lib \<Rightarrow> Config \<Rightarrow> App \<Rightarrow> Event \<Rightarrow> App" where
  "handle lib cfg app (EvReport r clockRL clock) = snd (report_php lib cfg app r clockRL clock)"
| "handle lib cfg app (EvGet r clockRL clock) = snd (get_endpoint app r clockRL clock)"
| "handle lib cfg app (EvTick clock) = app\<lparr>servers := cleanupTick (servers app) clock\<rparr>"

definition serve :: "Lib \<Rightarrow> Config \<Rightarrow> Event list \<Rightarrow> App" where
  "serve lib cfg evs = foldl (handle lib cfg) \<lparr>servers = NewServerList cfg, rateLimitMap = []\<rparr> evs"

text \<open>
  A key is a valid \<open>host:port\<close> string when \<open>SplitHostPort\<close>, the parser the server
  itself applies to such strings, splits it into a host that is an IP literal and the
  decimal form of a port between 1024 and 65535. An IPv6 host needs its brackets.
\<close>

definition valid_hostport :: "Lib \<Rightarrow> string \<Rightarrow> bool" where
  "valid_hostport lib k =
     (case SplitHostPort k of
        None \<Rightarrow> False
      | Some (host, portStr) \<Rightarrow>
          ParseIP lib host \<and>
          (case Atoi portStr of
             None \<Rightarrow> False
           | Some port \<Rightarrow> 1024 \<le> port \<and> port \<le> 65535 \<and> portStr = itoa port))"

definition keys_ok :: "Lib \<Rightarrow> App \<Rightarrow> bool" where
  "keys_ok lib app = (\<forall>k\<in>fst ` set (Entries (servers app)). valid_hostport lib k)"

section \<open>Loading the configuration\<close>

text \<open>
  The file system is a parameter as well: what \<open>os.Stat\<close> answers for a path (the size
  of the file, that it does not exist, or another error), what \<open>os.ReadFile\<close> returns,
  and whether \<open>os.MkdirAll\<close> and \<open>os.WriteFile\<close> succeed. The environment is the
  function \<open>os.Getenv\<close>, with the empty string for an unset variable. \<open>loadConfig\<close>
  returns the configuration together with the files it wrote; log lines are left out.
\<close>

datatype StatResult = FileInfo int | NotExist | StatError

record FS =
  Stat :: "string \<Rightarrow> StatResult"
  ReadFile :: "string \<Rightarrow> string option"
  MkdirAll :: "string \<Rightarrow> bool"
  WriteFile :: "string \<Rightarrow> string \<Rightarrow> bool"

definition maxConfigFileSize :: int where
  "maxConfigFileSize = 1024 * 1024 * 32"

definition secureReadFile :: "Lib \<Rightarrow> FS \<Rightarrow> string \<Rightarrow> int \<Rightarrow> string option" where
  "secureReadFile lib fs path maxSize =
     (let cleanPath = Clean lib path
      in if cleanPath \<noteq> path then None
         else if IsAbs lib cleanPath \<and> Contains cleanPath ''..'' then None
         else case Stat fs cleanPath of
                FileInfo sz \<Rightarrow> if sz > maxSize then None else ReadFile fs cleanPath
              | NotExist \<Rightarrow> None
              | StatError \<Rightarrow> None)"

text \<open>\<open>secureWriteFile\<close> returns whether it succeeded (\<open>err == nil\<close>).\<close>

definition secureWriteFile :: "Lib \<Rightarrow> FS \<Rightarrow> string \<Rightarrow> string \<Rightarrow> bool" where
  "secureWriteFile lib fs path data =
     (let cleanPath = Clean lib path
      in if cleanPath \<noteq> path then False
         else if Contains cleanPath ''..'' then False
         else if \<not> MkdirAll fs (Dir lib cleanPath) then False
         else WriteFile fs cleanPath data)"

definition defaultCfg :: Config where
  "defaultCfg = \<lparr>Port = 80, AllowedUserAgent = ''LU-Server/0.1'',
                 StaleTimeout = 10 * (60 * 1000000000), Blacklist = [], OfficialServers = [],
                 LogFile = ''lusd_server.log'', LogEnabled = True\<rparr>"

definition defaultJsonCfg :: jsonConfig where
  "defaultJsonCfg = \<lparr>jPort = Port defaultCfg, jAllowedUserAgent = AllowedUserAgent defaultCfg,
                     jStaleTimeout = ''10m'', jBlacklist = map fst (Blacklist defaultCfg),
                     jOfficialServers = [], jLogFile = LogFile defaultCfg,
                     jLogEnabled = LogEnabled defaultCfg\<rparr>"

text \<open>The blocks of \<open>loadConfig\<close> that follow a successful parse, in their order.\<close>

definition parseBlacklist :: "Lib \<Rightarrow> string list \<Rightarrow> (string \<times> bool) list" where
  "parseBlacklist lib ips =
     fold (\<lambda>ip m. let ip = TrimSpace lib ip
                   in if ip = [] then m
                      else if \<not> ParseIP lib ip then m
                      else AList.update ip True m) ips []"

definition validOfficialServers :: "Lib \<Rightarrow> string list \<Rightarrow> string list" where
  "validOfficialServers lib addrs =
     fold (\<lambda>addr acc. let addr = TrimSpace lib addr
                       in if addr = [] then acc
                          else let host = (case SplitHostPort addr of
                                             None \<Rightarrow> addr
                                           | Some (h, _) \<Rightarrow> h)
                               in if \<not> ParseIP lib host then acc else acc @ [addr]) addrs []"

definition fromJson :: "Lib \<Rightarrow> jsonConfig \<Rightarrow> Config" where
  "fromJson lib jsonCfg =
     (let cfg = \<lparr>Port = jPort jsonCfg, AllowedUserAgent = jAllowedUserAgent jsonCfg,
                 StaleTimeout = (case ParseDuration lib (jStaleTimeout jsonCfg) of
                                   None \<Rightarrow> StaleTimeout defaultCfg
                                 | Some duration \<Rightarrow> duration),
                 Blacklist = parseBlacklist lib (jBlacklist jsonCfg),
                 OfficialServers = validOfficialServers lib (jOfficialServers jsonCfg),
                 LogFile = jLogFile jsonCfg, LogEnabled = jLogEnabled jsonCfg\<rparr>;
          cfg = (if Port cfg < 1 \<or> Port cfg > 65535 then cfg\<lparr>Port := Port defaultCfg\<rparr> else cfg);
          cfg = (if AllowedUserAgent cfg = []
                 then cfg\<lparr>AllowedUserAgent := AllowedUserAgent defaultCfg\<rparr> else cfg);
          cfg = (if LogFile cfg = [] then cfg\<lparr>LogFile := LogFile defaultCfg\<rparr> else cfg)
      in cfg)"

definition envOverrides :: "Lib \<Rightarrow> (string \<Rightarrow> string) \<Rightarrow> Config \<Rightarrow> Config" where
  "envOverrides lib getenv cfg0 =
     (let port = getenv ''LUSD_PORT'';
          cfg = (if port \<noteq> []
                 then (case Atoi port of
                         Some p \<Rightarrow> if p > 0 \<and> p \<le> 65535 then cfg0\<lparr>Port := p\<rparr> else cfg0
                       | None \<Rightarrow> cfg0)
                 else cfg0);
          userAgent = getenv ''LUSD_USER_AGENT'';
          cfg = (if userAgent \<noteq> []
                 then (if length userAgent > 0 \<and> length userAgent \<le> 100
                       then cfg\<lparr>AllowedUserAgent := userAgent\<rparr> else cfg)
                 else cfg);
          timeout = getenv ''LUSD_STALE_TIMEOUT'';
          cfg = (if timeout \<noteq> []
                 then (case ParseDuration lib timeout of
                         Some duration \<Rightarrow> if duration > 0 then cfg\<lparr>StaleTimeout := duration\<rparr> else cfg
                       | None \<Rightarrow> cfg)
                 else cfg);
          logFile = getenv ''LUSD_LOG_FILE'';
          cfg = (if logFile \<noteq> []
                 then (if length logFile > 0 \<and> length logFile \<le> 255 \<and> \<not> Contains logFile ''..''
                       then cfg\<lparr>LogFile := logFile\<rparr> else cfg)
                 else cfg);
          logEnabled = getenv ''LUSD_LOG_ENABLED'';
          cfg = (if logEnabled \<noteq> []
                 then (case ParseBool logEnabled of
                         Some enabled \<Rightarrow> cfg\<lparr>LogEnabled := enabled\<rparr>
                       | None \<Rightarrow> cfg)
                 else cfg)
      in cfg)"

definition loadConfig ::
    "Lib \<Rightarrow> FS \<Rightarrow> (string \<Rightarrow> string) \<Rightarrow> string \<Rightarrow> Config \<times> (string \<times> string) list" where
  "loadConfig lib fs getenv path =
     (let configPath = Clean lib path
      in if Contains configPath ''..'' then (defaultCfg, [])
         else if Stat fs configPath = NotExist
         then (case MarshalIndent lib defaultJsonCfg of
                 None \<Rightarrow> (defaultCfg, [])
               | Some jsonData \<Rightarrow>
                   if secureWriteFile lib fs configPath jsonData
                   then (defaultCfg, [(configPath, jsonData)])
                   else (defaultCfg, []))
         else case secureReadFile lib fs configPath maxConfigFileSize of
                None \<Rightarrow> (defaultCfg, [])
              | Some data \<Rightarrow>
                  (case Unmarshal lib data of
                     None \<Rightarrow> (defaultCfg, [])
                   | Some jsonCfg \<Rightarrow> (envOverrides lib getenv (fromJson lib jsonCfg), [])))"

text \<open>Whether a configuration file was found, read and parsed.\<close>

definition config_loaded :: "Lib \<Rightarrow> FS \<Rightarrow> string \<Rightarrow> bool" where
  "config_loaded lib fs path =
     (let configPath = Clean lib path
      in \<not> Contains configPath ''..'' \<and> Stat fs configPath \<noteq> NotExist \<and>
         (case secureReadFile lib fs configPath maxConfigFileSize of
            None \<Rightarrow> False
          | Some data \<Rightarrow> Unmarshal lib data \<noteq> None))"

section \<open>Example values\<close>

definition cfg60 :: Config where
  "cfg60 = \<lparr>Port = 80, AllowedUserAgent = ''LU-Server/0.1'', StaleTimeout = 60000000000,
            Blacklist = [(''6.6.6.6'', True)], OfficialServers = [''10.0.0.1:9000''],
            LogFile = ''lusd_server.log'', LogEnabled = True\<rparr>"

text \<open>
  An instance of the library parameters for the examples. On the inputs the examples use
  it answers as Go's functions do; the content of the files is abbreviated, the text
  \<open>{port: 8080}\<close> standing for a JSON object that sets the port and nothing else.
\<close>

definition lib0 :: Lib where
  "lib0 = \<lparr>ParseIP = (\<lambda>s. s \<in> set [''1.2.3.4'', ''6.6.6.6'', ''10.0.0.1'', ''::1'']),
           ParseDuration = (\<lambda>s. if s = ''10m'' then Some 600000000000
                                else if s = ''90s'' then Some 90000000000 else None),
           TrimSpace = (\<lambda>s. s), Clean = (\<lambda>p. p), IsAbs = (\<lambda>p. take 1 p = ''/''),
           Dir = (\<lambda>p. ''.''),
           Unmarshal = (\<lambda>d. if d = ''{port: 8080}''
                            then Some \<lparr>jPort = 8080, jAllowedUserAgent = [], jStaleTimeout = [],
                                       jBlacklist = [], jOfficialServers = [], jLogFile = [],
                                       jLogEnabled = False\<rparr>
                            else None),
           MarshalIndent = (\<lambda>j. Some ''{}'')\<rparr>"

definition fs_missing :: FS where
  "fs_missing = \<lparr>Stat = (\<lambda>p. NotExist), ReadFile = (\<lambda>p. None), MkdirAll = (\<lambda>p. True),
                 WriteFile = (\<lambda>p d. True)\<rparr>"

definition fs_present :: FS where
  "fs_present = \<lparr>Stat = (\<lambda>p. if p = ''config.json'' then FileInfo 12 else NotExist),
                 ReadFile = (\<lambda>p. if p = ''config.json'' then Some ''{port: 8080}'' else None),
                 MkdirAll = (\<lambda>p. True), WriteFile = (\<lambda>p d. True)\<rparr>"

definition env_port :: "string \<Rightarrow> string" where
  "env_port v = (if v = ''LUSD_PORT'' then ''9090'' else [])"

definition env_empty :: "string \<Rightarrow> string" where
  "env_empty v = []"

definition app0 :: App where
  "app0 = \<lparr>servers = NewServerList cfg60, rateLimitMap = []\<rparr>"

definition app_busy :: App where
  "app_busy = \<lparr>servers = NewServerList cfg60, rateLimitMap = [(''6.6.6.6'', replicate 60 0)]\<rparr>"

definition req_good :: Request where
  "req_good = \<lparr>Method = ''POST'', UserAgent = ''LU-Server/0.1'', RemoteAddr = ''1.2.3.4:50000'',
               Form = Some [(''port'', ''2301'')]\<rparr>"

definition req_blacklisted :: Request where
  "req_blacklisted = \<lparr>Method = ''POST'', UserAgent = ''LU-Server/0.1'',
                      RemoteAddr = ''6.6.6.6:50000'', Form = Some [(''port'', ''2301'')]\<rparr>"

definition req_v6 :: Request where
  "req_v6 = \<lparr>Method = ''POST'', UserAgent = ''LU-Server/0.1'', RemoteAddr = ''[::1]:50000'',
             Form = Some [(''port'', ''2301'')]\<rparr>"

definition req_malformed :: Request where
  "req_malformed = \<lparr>Method = ''POST'', UserAgent = ''LU-Server/0.1'', RemoteAddr = ''unknown'',
                    Form = Some [(''port'', ''2301'')]\<rparr>"

section \<open>Facts about the helpers\<close>

lemma neg64_in_range: "duration_ok d \<Longrightarrow> neg64 d = - d"
  by (simp add: neg64_def wrap64_def duration_ok_def)

lemma Unix_mono: "a \<le> b \<Longrightarrow> Unix a \<le> Unix b"
  by (simp add: Unix_def zdiv_mono1)

lemma cutoff_in_range:
  "duration_ok d \<Longrightarrow> Unix (Add now (neg64 d)) = Unix (now - d)"
  by (simp add: neg64_in_range Add_def)

section \<open>The active list\<close>

text \<open>The order of strings is the lexicographic order of their bytes, as Go's is.\<close>

lemma string_less_bytes:
  "(xs :: string) < ys \<longleftrightarrow> (xs, ys) \<in> lexord {(u, v). (of_char u :: nat) < of_char v}"
  by (simp add: list_less_def less_char_def)

lemma fold_active_keys:
  "fst ` set (fold (\<lambda>(addr, ts) m. if ts \<ge> c then AList.update addr True m else m) es m0)
     = fst ` set m0 \<union> {a. \<exists>ts. (a, ts) \<in> set es \<and> ts \<ge> (c::int)}"
proof (induction es arbitrary: m0)
  case Nil
  then show ?case by simp
next
  case (Cons e es)
  obtain a ts where e: "e = (a, ts)" by (cases e)
  show ?case
    by (cases "ts \<ge> c") (auto simp: e Cons.IH AList.dom_update)
qed

lemma fold_active_distinct:
  "distinct (map fst m0) \<Longrightarrow>
   distinct (map fst (fold (\<lambda>(addr, ts) m. if ts \<ge> (c::int) then AList.update addr True m else m) es m0))"
  by (induction es arbitrary: m0) (auto simp: AList.distinct_update split: prod.splits)

lemma fold_official_keys:
  "fst ` set (fold (\<lambda>addr m. AList.update addr True m) os m0) = fst ` set m0 \<union> set os"
  by (induction os arbitrary: m0) (auto simp: AList.dom_update)

lemma fold_official_distinct:
  "distinct (map fst m0) \<Longrightarrow> distinct (map fst (fold (\<lambda>addr m. AList.update addr True m) os m0))"
  by (induction os arbitrary: m0) (auto simp: AList.distinct_update)

lemma fold_collect_keys: "fold (\<lambda>(addr, _) l. l @ [addr]) m l0 = l0 @ map fst m"
  by (induction m arbitrary: l0) (auto split: prod.splits)

text \<open>
  Whatever the order of the entries, \<open>GetActive\<close> is the sorted enumeration of a set:
  the keys with a live timestamp together with the official addresses.
\<close>

lemma GetActive_eq:
  "GetActive s now = sorted_list_of_set
     ({a. \<exists>ts. (a, ts) \<in> set (Entries s) \<and> ts \<ge> Unix (Add now (neg64 (StaleTimeout (Config s))))}
      \<union> set (OfficialServers (Config s)))"
proof -
  let ?c = "Unix (Add now (neg64 (StaleTimeout (Config s))))"
  let ?m1 = "fold (\<lambda>(addr, ts) m. if ts \<ge> ?c then AList.update addr True m else m) (Entries s) []"
  let ?m2 = "fold (\<lambda>addr m. AList.update addr True m) (OfficialServers (Config s)) ?m1"
  have g: "GetActive s now = sort (map fst ?m2)"
    by (simp add: GetActive_def Let_def fold_collect_keys)
  have d: "distinct (map fst ?m2)"
    by (intro fold_official_distinct fold_active_distinct) simp
  have k: "set (map fst ?m2) =
      {a. \<exists>ts. (a, ts) \<in> set (Entries s) \<and> ts \<ge> ?c} \<union> set (OfficialServers (Config s))"
    by (simp add: fold_official_keys fold_active_keys)
  have "sorted_list_of_set (set (map fst ?m2)) = sort (remdups (map fst ?m2))"
    by (rule sorted_list_of_set_sort_remdups)
  with d have "sorted_list_of_set (set (map fst ?m2)) = sort (map fst ?m2)"
    by (simp add: distinct_remdups_id)
  with g k show ?thesis by simp
qed

lemma finite_live_keys: "finite {a. \<exists>ts. (a, ts) \<in> set es \<and> (c::int) \<le> ts}"
proof -
  have "{a. \<exists>ts. (a, ts) \<in> set es \<and> c \<le> ts} \<subseteq> fst ` set es" by force
  then show ?thesis by (rule finite_subset) simp
qed

lemma set_GetActive:
  "set (GetActive s now) =
     {a. \<exists>ts. (a, ts) \<in> set (Entries s) \<and> ts \<ge> Unix (Add now (neg64 (StaleTimeout (Config s))))}
     \<union> set (OfficialServers (Config s))"
  by (simp add: GetActive_eq finite_live_keys)

lemma live_keys_map_of:
  "distinct (map fst es) \<Longrightarrow>
   {a. \<exists>ts. (a, ts) \<in> set es \<and> (c::int) \<le> ts} = {a. \<exists>ts. map_of es a = Some ts \<and> c \<le> ts}"
  by simp

section \<open>The sweep and the report\<close>

lemma fold_delete_stale:
  "fold (\<lambda>(addr, ts) m. if ts < (c::int) then AList.delete addr m else m) xs m
     = filter (\<lambda>(k, v). k \<notin> {a. \<exists>ts. (a, ts) \<in> set xs \<and> ts < c}) m"
proof (induction xs arbitrary: m)
  case Nil
  then show ?case by simp
next
  case (Cons x xs)
  obtain a ts where x: "x = (a, ts)" by (cases x)
  show ?case
  proof (cases "ts < c")
    case True
    have "filter (\<lambda>(k, v). k \<notin> {a. \<exists>ts. (a, ts) \<in> set xs \<and> ts < c}) (AList.delete a m)
          = filter (\<lambda>(k, v). k \<notin> {a'. \<exists>ts. (a', ts) \<in> set (x # xs) \<and> ts < c}) m"
      using True by (auto simp: AList.delete_eq x intro!: filter_cong)
    with True show ?thesis by (simp add: x Cons.IH)
  next
    case False
    have "filter (\<lambda>(k, v). k \<notin> {a. \<exists>ts. (a, ts) \<in> set xs \<and> ts < c}) m
          = filter (\<lambda>(k, v). k \<notin> {a'. \<exists>ts. (a', ts) \<in> set (x # xs) \<and> ts < c}) m"
      using False by (auto simp: x intro!: filter_cong)
    with False show ?thesis by (simp add: x Cons.IH)
  qed
qed

lemma Entries_cleanupTick:
  "Entries (cleanupTick s now) =
     filter (\<lambda>(k, v). k \<notin> {a. \<exists>ts. (a, ts) \<in> set (Entries s)
                \<and> ts < Unix (Add now (neg64 (StaleTimeout (Config s))))}) (Entries s)"
  by (simp add: cleanupTick_def Let_def fold_delete_stale)

lemma Config_cleanupTick [simp]: "Config (cleanupTick s now) = Config s"
  by (simp add: cleanupTick_def Let_def)

lemma Config_Report [simp]: "Config (Report s ip port now) = Config s"
  by (simp add: Report_def Let_def)

lemma Entries_cleanupTick_distinct:
  assumes "distinct (map fst (Entries s))"
  shows "Entries (cleanupTick s now) =
     filter (\<lambda>(k, v). v \<ge> Unix (Add now (neg64 (StaleTimeout (Config s))))) (Entries s)"
proof -
  let ?c = "Unix (Add now (neg64 (StaleTimeout (Config s))))"
  have *: "(\<exists>ts. (k, ts) \<in> set (Entries s) \<and> ts < ?c) \<longleftrightarrow> v < ?c"
    if kv: "(k, v) \<in> set (Entries s)" for k v
  proof
    assume "\<exists>ts. (k, ts) \<in> set (Entries s) \<and> ts < ?c"
    then obtain ts where ts: "(k, ts) \<in> set (Entries s)" "ts < ?c" by blast
    have "ts = v" by (rule eq_key_imp_eq_value [OF assms ts(1) kv])
    with ts(2) show "v < ?c" by simp
  next
    assume "v < ?c"
    with kv show "\<exists>ts. (k, ts) \<in> set (Entries s) \<and> ts < ?c" by blast
  qed
  have "filter (\<lambda>(k, v). k \<notin> {a. \<exists>ts. (a, ts) \<in> set (Entries s) \<and> ts < ?c}) (Entries s)
        = filter (\<lambda>(k, v). v \<ge> ?c) (Entries s)"
  proof (rule filter_cong [OF refl])
    fix x assume x: "x \<in> set (Entries s)"
    obtain k v where kv: "x = (k, v)" by (cases x)
    from x kv have "(k, v) \<in> set (Entries s)" by simp
    from * [OF this] show "(case x of (k, v) \<Rightarrow> k \<notin> {a. \<exists>ts. (a, ts) \<in> set (Entries s) \<and> ts < ?c})
        = (case x of (k, v) \<Rightarrow> v \<ge> ?c)"
      unfolding kv by (simp add: not_less [symmetric]) blast
  qed
  then show ?thesis by (simp only: Entries_cleanupTick)
qed

lemma entries_ok_cleanupTick: "entries_ok s \<Longrightarrow> entries_ok (cleanupTick s now)"
  by (simp add: entries_ok_def Entries_cleanupTick distinct_map_filter)

lemma entries_ok_Report: "entries_ok s \<Longrightarrow> entries_ok (Report s ip port now)"
  by (simp add: entries_ok_def Report_def Let_def AList.distinct_update)

lemma entries_ok_New: "entries_ok (NewServerList cfg)"
  by (simp add: entries_ok_def NewServerList_def)

lemma length_filter_key:
  "distinct (map fst es) \<Longrightarrow> map_of es a = Some v \<Longrightarrow> length (filter (\<lambda>(k, ts). k = a) es) = 1"
proof (induction es)
  case Nil
  then show ?case by simp
next
  case (Cons e es)
  obtain k w where e: "e = (k, w)" by (cases e)
  show ?case
  proof (cases "k = a")
    case True
    with Cons.prems e have "a \<notin> fst ` set es" by auto
    then have "filter (\<lambda>(k, ts). k = a) es = []"
      by (force simp: filter_empty_conv)
    with True e show ?thesis by simp
  next
    case False
    with Cons e show ?thesis by simp
  qed
qed

section \<open>Runs\<close>

lemma set_update_subset: "set (AList.update k v al) \<subseteq> insert (k, v) (set al)"
  by (induction al) auto

lemma set_cleanupTick_subset: "set (Entries (cleanupTick s now)) \<subseteq> set (Entries s)"
  by (simp add: Entries_cleanupTick)

lemma entries_ok_step: "entries_ok s \<Longrightarrow> entries_ok (step s e)"
proof -
  assume ok: "entries_ok s"
  obtain t st where e: "e = (t, st)" by (cases e)
  show ?thesis
    by (cases st) (simp_all add: e ok entries_ok_Report entries_ok_cleanupTick)
qed

lemma entries_ok_run: "entries_ok s \<Longrightarrow> entries_ok (run s evs)"
  unfolding run_def by (induction evs arbitrary: s) (simp_all add: entries_ok_step)

lemma Config_step [simp]: "Config (step s e) = Config s"
proof -
  obtain t st where e: "e = (t, st)" by (cases e)
  show ?thesis by (cases st) (simp_all add: e)
qed

lemma Config_run: "Config (run s evs) = Config s"
  unfolding run_def by (induction evs arbitrary: s) simp_all

lemma run_snoc: "run s (evs @ [e]) = step (run s evs) e"
  by (simp add: run_def)

lemma run_stamps:
  "sorted (map fst evs) \<Longrightarrow> (k, v) \<in> set (Entries (run (NewServerList cfg) evs))
     \<Longrightarrow> evs \<noteq> [] \<and> v \<le> Unix (fst (last evs))"
proof (induction evs arbitrary: k v rule: rev_induct)
  case Nil
  then show ?case by (simp add: run_def NewServerList_def)
next
  case (snoc e evs)
  obtain t st where e: "e = (t, st)" by (cases e)
  let ?s = "run (NewServerList cfg) evs"
  from snoc.prems(1) have srt: "sorted (map fst evs)" and le: "\<forall>x\<in>set evs. fst x \<le> t"
    by (auto simp: e sorted_append)
  have old: "v' \<le> Unix t" if "(k', v') \<in> set (Entries ?s)" for k' v'
  proof -
    from snoc.IH [OF srt that] have ne: "evs \<noteq> []" and v: "v' \<le> Unix (fst (last evs))" by simp_all
    from ne le have "fst (last evs) \<le> t" by simp
    then have "Unix (fst (last evs)) \<le> Unix t" by (rule Unix_mono)
    with v show ?thesis by simp
  qed
  have "v \<le> Unix t"
  proof (cases st)
    case (StepReport ip port)
    with snoc.prems(2) have "(k, v) \<in> set (AList.update (Sprintf_addr ip port) (Unix t) (Entries ?s))"
      by (simp add: run_snoc e Report_def Let_def)
    with set_update_subset [of "Sprintf_addr ip port" "Unix t" "Entries ?s"]
    have "(k, v) = (Sprintf_addr ip port, Unix t) \<or> (k, v) \<in> set (Entries ?s)"
      by blast
    then show ?thesis
    proof
      assume "(k, v) = (Sprintf_addr ip port, Unix t)"
      then show ?thesis by simp
    next
      assume "(k, v) \<in> set (Entries ?s)"
      then show ?thesis by (rule old)
    qed
  next
    case StepSweep
    with snoc.prems(2) have "(k, v) \<in> set (Entries (cleanupTick ?s t))"
      by (simp add: run_snoc e)
    with set_cleanupTick_subset [of ?s t] have "(k, v) \<in> set (Entries ?s)" by blast
    then show ?thesis by (rule old)
  qed
  then show ?case by (simp add: e)
qed

lemma Config_sweeps [simp]: "Config (sweeps s ticks) = Config s"
  unfolding sweeps_def by (induction ticks arbitrary: s) simp_all

lemma entries_ok_sweeps: "entries_ok s \<Longrightarrow> entries_ok (sweeps s ticks)"
  unfolding sweeps_def by (induction ticks arbitrary: s) (simp_all add: entries_ok_cleanupTick)

lemma set_sweeps_subset: "set (Entries (sweeps s ticks)) \<subseteq> set (Entries s)"
  unfolding sweeps_def
proof (induction ticks arbitrary: s)
  case Nil
  then show ?case by simp
next
  case (Cons t ticks)
  have "set (Entries (foldl cleanupTick (cleanupTick s t) ticks)) \<subseteq> set (Entries (cleanupTick s t))"
    by (rule Cons.IH)
  also have "\<dots> \<subseteq> set (Entries s)" by (rule set_cleanupTick_subset)
  finally show ?case by simp
qed

lemma live_survives_sweeps:
  assumes "entries_ok s" and "(k, v) \<in> set (Entries s)"
    and "\<forall>t\<in>set ticks. Unix (Add t (neg64 (StaleTimeout (Config s)))) \<le> v"
  shows "(k, v) \<in> set (Entries (sweeps s ticks))"
  using assms unfolding sweeps_def
proof (induction ticks arbitrary: s)
  case Nil
  then show ?case by simp
next
  case (Cons t ticks)
  from Cons.prems(1) have d: "distinct (map fst (Entries s))" by (simp add: entries_ok_def)
  from Cons.prems(3) have "Unix (Add t (neg64 (StaleTimeout (Config s)))) \<le> v" by simp
  with Cons.prems(2) have in1: "(k, v) \<in> set (Entries (cleanupTick s t))"
    by (simp add: Entries_cleanupTick_distinct [OF d])
  have ok1: "entries_ok (cleanupTick s t)" using Cons.prems(1) by (rule entries_ok_cleanupTick)
  have "(k, v) \<in> set (Entries (foldl cleanupTick (cleanupTick s t) ticks))"
    using ok1 in1 Cons.prems(3) by (intro Cons.IH) simp_all
  then show ?case by simp
qed

lemma utoa_2301: "utoa 2301 = ''2301''"
  by (simp add: utoa.simps digit_char_def)

section \<open>Decimal ports and the last colon\<close>

lemma digit_char_props:
  assumes "d < 10"
  shows "digit_val (digit_char d) = d \<and> is_digit (digit_char d)
         \<and> digit_char d \<noteq> CHR ''-'' \<and> digit_char d \<noteq> CHR ''+'' \<and> digit_char d \<noteq> CHR '':''"
proof -
  from assms have "d = 0 \<or> d = 1 \<or> d = 2 \<or> d = 3 \<or> d = 4 \<or> d = 5 \<or> d = 6 \<or> d = 7 \<or> d = 8 \<or> d = 9"
    by arith
  then show ?thesis
    by (elim disjE) (simp_all add: digit_char_def digit_val_def is_digit_def)
qed

lemma utoa_digits: "utoa n \<noteq> [] \<and> list_all is_digit (utoa n) \<and> hd (utoa n) \<noteq> CHR ''-''
    \<and> hd (utoa n) \<noteq> CHR ''+'' \<and> CHR '':'' \<notin> set (utoa n)"
proof (induction n rule: utoa.induct)
  case (1 n)
  show ?case
  proof (cases "n < 10")
    case True
    then have "utoa n = [digit_char n]" by (simp add: utoa.simps)
    with digit_char_props [OF True] show ?thesis by auto
  next
    case False
    then have u: "utoa n = utoa (n div 10) @ [digit_char (n mod 10)]" by (subst utoa.simps) simp
    have "n mod 10 < 10" by simp
    from digit_char_props [OF this] 1 [OF False] show ?thesis by (auto simp: u)
  qed
qed

lemma foldl_utoa: "foldl (\<lambda>m c. 10 * m + digit_val c) 0 (utoa n) = n"
proof (induction n rule: utoa.induct)
  case (1 n)
  show ?case
  proof (cases "n < 10")
    case True
    then have "utoa n = [digit_char n]" by (simp add: utoa.simps)
    with digit_char_props [OF True] show ?thesis by simp
  next
    case False
    then have u: "utoa n = utoa (n div 10) @ [digit_char (n mod 10)]" by (subst utoa.simps) simp
    have "n mod 10 < 10" by simp
    from digit_char_props [OF this] 1 [OF False] show ?thesis by (simp add: u)
  qed
qed

lemma parse_digits_utoa: "parse_digits (utoa n) = Some n"
  using utoa_digits [of n] by (simp add: parse_digits_def foldl_utoa)

lemma Atoi_itoa:
  assumes "0 \<le> p" and "p < 2 ^ 63"
  shows "Atoi (itoa p) = Some p"
proof -
  let ?u = "utoa (nat p)"
  from utoa_digits [of "nat p"] obtain c r where cr: "?u = c # r" "c \<noteq> CHR ''-''" "c \<noteq> CHR ''+''"
    by (cases ?u) auto
  have i: "itoa p = ?u" using assms(1) by (simp add: itoa_def)
  have "parse_digits (c # r) = Some (nat p)" using parse_digits_utoa [of "nat p"] cr(1) by simp
  then show ?thesis
    using assms cr by (simp add: Atoi_def i Let_def)
qed

lemma IndexByte_append_notin: "c \<notin> set xs \<Longrightarrow> IndexByte (xs @ c # ys) c = Some (length xs)"
  by (induction xs) auto

lemma LastIndexByte_sep:
  assumes "c \<notin> set ds"
  shows "LastIndexByte (h @ c # ds) c = Some (length h)"
proof -
  have "IndexByte (rev (h @ c # ds)) c = Some (length ds)"
    using assms IndexByte_append_notin [of c "rev ds" "rev h"] by simp
  then show ?thesis by (simp add: LastIndexByte_def)
qed

lemma IndexByte_None_iff: "IndexByte xs c = None \<longleftrightarrow> c \<notin> set xs"
  by (induction xs) auto

lemma digits_exclude:
  assumes "list_all is_digit ds" and "\<not> is_digit c"
  shows "c \<notin> set ds"
  using assms by (auto simp: list_all_iff)

text \<open>
  A host without a colon or a bracket, which is what an IPv4 literal is, gives a key
  that \<open>SplitHostPort\<close> takes apart again.
\<close>

lemma SplitHostPort_Sprintf:
  assumes "0 \<le> port"
    and "CHR '':'' \<notin> set ip" and "CHR ''['' \<notin> set ip" and "CHR '']'' \<notin> set ip"
  shows "SplitHostPort (Sprintf_addr ip port) = Some (ip, itoa port)"
proof -
  let ?ds = "itoa port"
  let ?k = "ip @ CHR '':'' # ?ds"
  have ds: "?ds = utoa (nat port)" using assms(1) by (simp add: itoa_def)
  have dig: "list_all is_digit ?ds" using utoa_digits [of "nat port"] by (simp add: ds)
  have nocolon: "CHR '':'' \<notin> set ?ds" using utoa_digits [of "nat port"] by (simp add: ds)
  have nolb: "CHR ''['' \<notin> set ?ds" using dig by (rule digits_exclude) (simp add: is_digit_def)
  have norb: "CHR '']'' \<notin> set ?ds" using dig by (rule digits_exclude) (simp add: is_digit_def)
  have k: "Sprintf_addr ip port = ?k" by (simp add: Sprintf_addr_def)
  have l: "LastIndexByte ?k CHR '':'' = Some (length ip)"
    using nocolon by (rule LastIndexByte_sep)
  have first: "?k ! 0 \<noteq> CHR ''[''"
    using assms(3) by (cases ip) auto
  have h: "IndexByte ip CHR '':'' = None"
    using assms(2) by (simp add: IndexByte_None_iff)
  have lb: "IndexByte ?k CHR ''['' = None"
    using assms(3) nolb by (simp add: IndexByte_None_iff)
  have rb: "IndexByte ?k CHR '']'' = None"
    using assms(4) norb by (simp add: IndexByte_None_iff)
  show ?thesis
    unfolding k SplitHostPort_def by (simp only: l first lb rb Let_def) (simp add: h)
qed

lemma valid_hostport_Sprintf:
  assumes "ParseIP lib ip" and "1024 \<le> port" and "port \<le> 65535"
    and "CHR '':'' \<notin> set ip" and "CHR ''['' \<notin> set ip" and "CHR '']'' \<notin> set ip"
  shows "valid_hostport lib (Sprintf_addr ip port)"
proof -
  have s: "SplitHostPort (Sprintf_addr ip port) = Some (ip, itoa port)"
    using assms(2,4-6) by (intro SplitHostPort_Sprintf) simp_all
  have a: "Atoi (itoa port) = Some port" using assms(2,3) by (intro Atoi_itoa) simp_all
  show ?thesis
    using assms(1-3) by (simp add: valid_hostport_def s a)
qed


section \<open>The report endpoint\<close>

lemma reportHandler_changed:
  assumes "reportHandler lib cfg app r clock = (st, app')" and "app' \<noteq> app"
  shows "\<exists>ip p form port. SplitHostPort (RemoteAddr r) = Some (ip, p) \<and> ParseIP lib ip
           \<and> \<not> blacklisted cfg ip \<and> Method r = ''POST'' \<and> UserAgent r = AllowedUserAgent cfg
           \<and> Form r = Some form \<and> Atoi (FormValue form ''port'') = Some port
           \<and> 1024 \<le> port \<and> port \<le> 65535 \<and> st = 200
           \<and> app' = app\<lparr>servers := Report (servers app) ip port clock\<rparr>"
  using assms
  by (force simp: reportHandler_def Let_def not_less split: option.splits if_splits)

lemma securityMiddleware_cases:
  "securityMiddleware next app r clockRL clock = (400, app) \<or>
   (\<exists>rl. securityMiddleware next app r clockRL clock = (429, app\<lparr>rateLimitMap := rl\<rparr>)) \<or>
   (\<exists>rl. securityMiddleware next app r clockRL clock = next (app\<lparr>rateLimitMap := rl\<rparr>) r clock)"
  by (auto simp: securityMiddleware_def split: option.splits prod.splits)

text \<open>
  A request changes the registry only when every check has passed, and then by the
  \<open>Report\<close> of the host of its remote address and the port of its form.
\<close>

lemma report_php_changed:
  assumes "servers (snd (report_php lib cfg app r clockRL clock)) \<noteq> servers app"
  shows "\<exists>ip p form port. SplitHostPort (RemoteAddr r) = Some (ip, p) \<and> ParseIP lib ip
           \<and> \<not> blacklisted cfg ip \<and> Method r = ''POST'' \<and> UserAgent r = AllowedUserAgent cfg
           \<and> Form r = Some form \<and> Atoi (FormValue form ''port'') = Some port
           \<and> 1024 \<le> port \<and> port \<le> 65535
           \<and> servers (snd (report_php lib cfg app r clockRL clock)) = Report (servers app) ip port clock"
proof -
  from securityMiddleware_cases [of "reportHandler lib cfg" app r clockRL clock] assms
  obtain rl where rl: "report_php lib cfg app r clockRL clock
                       = reportHandler lib cfg (app\<lparr>rateLimitMap := rl\<rparr>) r clock"
    by (auto simp: report_php_def)
  obtain st app' where res: "reportHandler lib cfg (app\<lparr>rateLimitMap := rl\<rparr>) r clock = (st, app')"
    by (cases "reportHandler lib cfg (app\<lparr>rateLimitMap := rl\<rparr>) r clock")
  with assms rl have "app' \<noteq> app\<lparr>rateLimitMap := rl\<rparr>" by auto
  from reportHandler_changed [OF res this] obtain ip p form port
    where "SplitHostPort (RemoteAddr r) = Some (ip, p)" "ParseIP lib ip" "\<not> blacklisted cfg ip"
      "Method r = ''POST''" "UserAgent r = AllowedUserAgent cfg" "Form r = Some form"
      "Atoi (FormValue form ''port'') = Some port" "1024 \<le> port" "port \<le> 65535"
      and a: "app' = app\<lparr>rateLimitMap := rl\<rparr>\<lparr>servers := Report (servers (app\<lparr>rateLimitMap := rl\<rparr>)) ip port clock\<rparr>"
    by blast
  moreover from a have "servers (snd (report_php lib cfg app r clockRL clock))
      = Report (servers app) ip port clock"
    by (simp add: rl res)
  ultimately show ?thesis by blast
qed

text \<open>
  Were every host that \<open>ParseIP\<close> accepts free of colons and brackets, every key of
  every reachable registry would be a valid \<open>host:port\<close> string.
\<close>

lemma keys_ok_rateLimitMap [simp]: "keys_ok lib (app\<lparr>rateLimitMap := rl\<rparr>) = keys_ok lib app"
  by (simp add: keys_ok_def)

lemma keys_ok_Report:
  assumes "keys_ok lib app" and "ParseIP lib ip" and "1024 \<le> port" and "port \<le> 65535"
    and "CHR '':'' \<notin> set ip" and "CHR ''['' \<notin> set ip" and "CHR '']'' \<notin> set ip"
  shows "keys_ok lib (app\<lparr>servers := Report (servers app) ip port clock\<rparr>)"
proof -
  have "fst ` set (Entries (Report (servers app) ip port clock))
        = {Sprintf_addr ip port} \<union> fst ` set (Entries (servers app))"
    by (simp add: Report_def Let_def AList.dom_update)
  with assms(1) valid_hostport_Sprintf [OF assms(2-7)] show ?thesis
    by (simp add: keys_ok_def)
qed

lemma keys_ok_reportHandler:
  assumes "keys_ok lib app"
    and plain: "\<And>h. ParseIP lib h \<Longrightarrow> CHR '':'' \<notin> set h \<and> CHR ''['' \<notin> set h \<and> CHR '']'' \<notin> set h"
  shows "keys_ok lib (snd (reportHandler lib cfg app r clock))"
proof (cases "snd (reportHandler lib cfg app r clock) = app")
  case True
  with assms(1) show ?thesis by simp
next
  case False
  obtain st app' where res: "reportHandler lib cfg app r clock = (st, app')"
    by (cases "reportHandler lib cfg app r clock")
  with False have "app' \<noteq> app" by simp
  from reportHandler_changed [OF res this] obtain ip port
    where ip: "ParseIP lib ip" and port: "1024 \<le> port" "port \<le> 65535"
      and a: "app' = app\<lparr>servers := Report (servers app) ip port clock\<rparr>"
    by blast
  from plain [OF ip] have "CHR '':'' \<notin> set ip" "CHR ''['' \<notin> set ip" "CHR '']'' \<notin> set ip"
    by simp_all
  with assms(1) ip port have "keys_ok lib (app\<lparr>servers := Report (servers app) ip port clock\<rparr>)"
    by (intro keys_ok_Report)
  with a show ?thesis by (simp add: res)
qed

lemma keys_ok_report_php:
  assumes "keys_ok lib app"
    and plain: "\<And>h. ParseIP lib h \<Longrightarrow> CHR '':'' \<notin> set h \<and> CHR ''['' \<notin> set h \<and> CHR '']'' \<notin> set h"
  shows "keys_ok lib (snd (report_php lib cfg app r clockRL clock))"
proof -
  have k: "keys_ok lib (snd (reportHandler lib cfg (app\<lparr>rateLimitMap := rl\<rparr>) r clock))" for rl
    using assms(1) by (intro keys_ok_reportHandler plain) simp_all
  from securityMiddleware_cases [of "reportHandler lib cfg" app r clockRL clock] assms(1) k
  show ?thesis
    by (auto simp: report_php_def)
qed

lemma keys_ok_get_endpoint:
  assumes "keys_ok lib app"
  shows "keys_ok lib (snd (get_endpoint app r clockRL clock))"
  using securityMiddleware_cases [of getHandler app r clockRL clock] assms
  by (auto simp: get_endpoint_def getHandler_def)

lemma keys_ok_tick:
  assumes "keys_ok lib app"
  shows "keys_ok lib (app\<lparr>servers := cleanupTick (servers app) clock\<rparr>)"
  using assms set_cleanupTick_subset [of "servers app" clock]
  by (auto simp: keys_ok_def)

lemma keys_ok_handle:
  assumes "keys_ok lib app"
    and plain: "\<And>h. ParseIP lib h \<Longrightarrow> CHR '':'' \<notin> set h \<and> CHR ''['' \<notin> set h \<and> CHR '']'' \<notin> set h"
  shows "keys_ok lib (handle lib cfg app ev)"
proof (cases ev)
  case (EvReport r clockRL clock)
  with assms(1) show ?thesis by (simp add: keys_ok_report_php plain)
next
  case (EvGet r clockRL clock)
  with assms(1) show ?thesis by (simp add: keys_ok_get_endpoint)
next
  case (EvTick clock)
  with assms(1) show ?thesis by (simp add: keys_ok_tick)
qed

lemma keys_ok_foldl:
  assumes "keys_ok lib app"
    and plain: "\<And>h. ParseIP lib h \<Longrightarrow> CHR '':'' \<notin> set h \<and> CHR ''['' \<notin> set h \<and> CHR '']'' \<notin> set h"
  shows "keys_ok lib (foldl (handle lib cfg) app evs)"
  using assms(1)
proof (induction evs arbitrary: app)
  case Nil
  then show ?case by simp
next
  case (Cons ev evs)
  from Cons.prems have "keys_ok lib (handle lib cfg app ev)" by (intro keys_ok_handle plain)
  then have "keys_ok lib (foldl (handle lib cfg) (handle lib cfg app ev) evs)" by (rule Cons.IH)
  then show ?case by simp
qed

lemma plain_host_keys_valid:
  assumes "\<And>h. ParseIP lib h \<Longrightarrow> CHR '':'' \<notin> set h \<and> CHR ''['' \<notin> set h \<and> CHR '']'' \<notin> set h"
  shows "\<forall>k\<in>fst ` set (Entries (servers (serve lib cfg evs))). valid_hostport lib k"
proof -
  have "keys_ok lib \<lparr>servers = NewServerList cfg, rateLimitMap = []\<rparr>"
    by (simp add: keys_ok_def NewServerList_def)
  then have "keys_ok lib (serve lib cfg evs)"
    unfolding serve_def by (intro keys_ok_foldl assms)
  then show ?thesis by (simp add: keys_ok_def)
qed

section \<open>The examples, evaluated\<close>

lemma Atoi_2301: "Atoi ''2301'' = Some 2301"
  by (simp add: Atoi_def parse_digits_def is_digit_def digit_val_def)

lemma Atoi_Nil: "Atoi [] = None"
  by (simp add: Atoi_def parse_digits_def)

lemma split_good: "SplitHostPort ''1.2.3.4:50000'' = Some (''1.2.3.4'', ''50000'')"
  by (simp add: SplitHostPort_def LastIndexByte_def)

lemma split_blacklisted: "SplitHostPort ''6.6.6.6:50000'' = Some (''6.6.6.6'', ''50000'')"
  by (simp add: SplitHostPort_def LastIndexByte_def)

lemma split_malformed: "SplitHostPort ''unknown'' = None"
  by (simp add: SplitHostPort_def LastIndexByte_def)

lemma split_v6: "SplitHostPort ''[::1]:50000'' = Some (''::1'', ''50000'')"
  by (simp add: SplitHostPort_def LastIndexByte_def)

lemma split_bare_v6: "SplitHostPort ''::1:2301'' = None"
  by (simp add: SplitHostPort_def LastIndexByte_def)

lemma checkRateLimit_first: "checkRateLimit [] ip clock = (True, [(ip, [quot (Unix clock) 60])])"
  by (simp add: checkRateLimit_def Let_def)

lemma serve_good: "Entries (servers (serve lib0 cfg60 [EvReport req_good 0 0])) = [(''1.2.3.4:2301'', 0)]"
  by (simp add: serve_def report_php_def securityMiddleware_def reportHandler_def req_good_def
      split_good checkRateLimit_first FormValue_def Atoi_2301 cfg60_def blacklisted_def lib0_def
      Report_def NewServerList_def Sprintf_addr_def itoa_def utoa_2301 Unix_def)

lemma handle_blacklisted_busy:
  assumes "n < 60"
  shows "handle lib0 cfg60 (app0\<lparr>rateLimitMap := (if n = 0 then [] else [(''6.6.6.6'', replicate n 0)])\<rparr>)
           (EvReport req_blacklisted 0 0)
         = app0\<lparr>rateLimitMap := [(''6.6.6.6'', replicate (Suc n) 0)]\<rparr>"
  using assms
  by (simp add: report_php_def securityMiddleware_def reportHandler_def req_blacklisted_def
      split_blacklisted checkRateLimit_def FormValue_def Atoi_2301 cfg60_def blacklisted_def
      Unix_def quot_def maxRequestsPerMinute_def Let_def app0_def replicate_append_same)

lemma busy_reachable_aux:
  "n \<le> 60 \<Longrightarrow> foldl (handle lib0 cfg60) app0 (replicate n (EvReport req_blacklisted 0 0))
     = app0\<lparr>rateLimitMap := (if n = 0 then [] else [(''6.6.6.6'', replicate n 0)])\<rparr>"
proof (induction n)
  case 0
  then show ?case by (simp add: app0_def)
next
  case (Suc n)
  then have n: "n < 60" by simp
  have "replicate (Suc n) (EvReport req_blacklisted 0 0)
        = replicate n (EvReport req_blacklisted 0 0) @ [EvReport req_blacklisted 0 0]"
    by (simp add: replicate_append_same)
  then have "foldl (handle lib0 cfg60) app0 (replicate (Suc n) (EvReport req_blacklisted 0 0))
        = handle lib0 cfg60 (foldl (handle lib0 cfg60) app0 (replicate n (EvReport req_blacklisted 0 0)))
            (EvReport req_blacklisted 0 0)"
    by (simp only: foldl_append foldl.simps)
  also have "\<dots> = app0\<lparr>rateLimitMap := [(''6.6.6.6'', replicate (Suc n) 0)]\<rparr>"
    using Suc.IH n handle_blacklisted_busy [OF n] by simp
  finally show ?case by simp
qed

lemma busy_reachable: "serve lib0 cfg60 (replicate 60 (EvReport req_blacklisted 0 0)) = app_busy"
  using busy_reachable_aux [of 60] by (simp add: serve_def app0_def app_busy_def)

section \<open>Loading the configuration: the early returns\<close>

lemma loadConfig_not_loaded:
  "\<not> config_loaded lib fs path \<Longrightarrow> fst (loadConfig lib fs getenv path) = defaultCfg"
  by (auto simp: config_loaded_def loadConfig_def Let_def split: option.splits)

lemma loadConfig_loaded:
  "config_loaded lib fs path \<Longrightarrow>
   \<exists>data jsonCfg. secureReadFile lib fs (Clean lib path) maxConfigFileSize = Some data
      \<and> Unmarshal lib data = Some jsonCfg
      \<and> loadConfig lib fs getenv path = (envOverrides lib getenv (fromJson lib jsonCfg), [])"
  by (auto simp: config_loaded_def loadConfig_def Let_def split: option.splits)

lemma load_missing: "loadConfig lib0 fs_missing env_port ''config.json'' = (defaultCfg, [(''config.json'', ''{}'')])"
  by (simp add: loadConfig_def lib0_def fs_missing_def secureWriteFile_def Let_def)

lemma loaded_present: "config_loaded lib0 fs_present ''config.json''"
  by (simp add: config_loaded_def lib0_def fs_present_def secureReadFile_def maxConfigFileSize_def Let_def)

lemma Atoi_9090: "Atoi ''9090'' = Some 9090"
  by (simp add: Atoi_def parse_digits_def is_digit_def digit_val_def)

lemma read_present:
  "secureReadFile lib0 fs_present ''config.json'' maxConfigFileSize = Some ''{port: 8080}''"
  by (simp add: lib0_def fs_present_def secureReadFile_def maxConfigFileSize_def Let_def)

lemma load_present:
  "loadConfig lib0 fs_present getenv ''config.json'' =
     (envOverrides lib0 getenv
        (fromJson lib0 \<lparr>jPort = 8080, jAllowedUserAgent = [], jStaleTimeout = [],
                         jBlacklist = [], jOfficialServers = [], jLogFile = [],
                         jLogEnabled = False\<rparr>), [])"
proof -
  have c: "Clean lib0 ''config.json'' = ''config.json''" by (simp add: lib0_def)
  have n: "\<not> Contains ''config.json'' ''..''" by simp
  have s: "Stat fs_present ''config.json'' \<noteq> NotExist" by (simp add: fs_present_def)
  have u: "Unmarshal lib0 ''{port: 8080}'' = Some \<lparr>jPort = 8080, jAllowedUserAgent = [],
             jStaleTimeout = [], jBlacklist = [], jOfficialServers = [], jLogFile = [],
             jLogEnabled = False\<rparr>" by (simp add: lib0_def)
  show ?thesis
    by (simp only: loadConfig_def Let_def c n s read_present u if_False option.case)
qed

lemma fromJson_example:
  "fromJson lib0 \<lparr>jPort = 8080, jAllowedUserAgent = [], jStaleTimeout = [],
                   jBlacklist = [], jOfficialServers = [], jLogFile = [], jLogEnabled = False\<rparr>
   = defaultCfg\<lparr>Port := 8080, LogEnabled := False\<rparr>"
  by (simp add: fromJson_def lib0_def defaultCfg_def parseBlacklist_def validOfficialServers_def Let_def)

lemma load_present_env_port:
  "Port (fst (loadConfig lib0 fs_present env_port ''config.json'')) = 9090"
  by (simp add: load_present fromJson_example envOverrides_def env_port_def Atoi_9090 Let_def
      defaultCfg_def)

lemma load_present_env_empty:
  "Port (fst (loadConfig lib0 fs_present env_empty ''config.json'')) = 8080"
  by (simp add: load_present fromJson_example envOverrides_def env_empty_def Let_def defaultCfg_def)

text \<open>
  C1. For a registry whose map has one entry per key, \<open>GetActive\<close> returns exactly the
  union of the registrations with timestamp at least \<open>now - staleTimeout\<close> (in Unix
  seconds) and the official addresses, as a sorted list without duplicates. The order
  is the byte-wise lexicographic order of strings. The result depends only on the
  contents of the map and on the configuration, not on the order in which the map is
  ranged over: two registries with the same map and configuration give the same list.
\<close>

theorem GetActive_sorted_union:
  assumes "entries_ok s" and "duration_ok (StaleTimeout (Config s))"
  shows "set (GetActive s now) =
           {addr. \<exists>ts. map_of (Entries s) addr = Some ts \<and> ts \<ge> Unix (now - StaleTimeout (Config s))}
           \<union> set (OfficialServers (Config s))
         \<and> sorted (GetActive s now) \<and> distinct (GetActive s now)
         \<and> (\<forall>s'. entries_ok s' \<and> map_of (Entries s') = map_of (Entries s) \<and> Config s' = Config s
                \<longrightarrow> GetActive s' now = GetActive s now)"
proof -
  let ?c = "Unix (Add now (neg64 (StaleTimeout (Config s))))"
  have c: "?c = Unix (now - StaleTimeout (Config s))"
    using assms(2) by (rule cutoff_in_range)
  have d: "distinct (map fst (Entries s))"
    using assms(1) by (simp add: entries_ok_def)
  have 1: "set (GetActive s now) =
           {addr. \<exists>ts. map_of (Entries s) addr = Some ts \<and> ts \<ge> Unix (now - StaleTimeout (Config s))}
           \<union> set (OfficialServers (Config s))"
    by (simp only: set_GetActive live_keys_map_of [OF d] c)
  have 2: "sorted (GetActive s now)" "distinct (GetActive s now)"
    by (simp_all add: GetActive_eq)
  have 3: "GetActive s' now = GetActive s now"
    if "entries_ok s'" "map_of (Entries s') = map_of (Entries s)" "Config s' = Config s" for s'
  proof -
    have d': "distinct (map fst (Entries s'))"
      using that(1) by (simp add: entries_ok_def)
    show ?thesis
      by (simp only: GetActive_eq live_keys_map_of [OF d] live_keys_map_of [OF d'] that(2,3))
  qed
  from 1 2 3 show ?thesis by blast
qed

theorem GetActive_sorted_union_witness:
  "entries_ok \<lparr>Entries = [(''9.9.9.9:2000'', 100), (''1.2.3.4:2301'', 20), (''10.0.0.1:9000'', 95)],
               Config = cfg60\<rparr>
   \<and> duration_ok (StaleTimeout cfg60)
   \<and> GetActive \<lparr>Entries = [(''9.9.9.9:2000'', 100), (''1.2.3.4:2301'', 20), (''10.0.0.1:9000'', 95)],
                Config = cfg60\<rparr> 110000000000
       = [''10.0.0.1:9000'', ''9.9.9.9:2000'']
   \<and> GetActive \<lparr>Entries = [(''9.9.9.9:2000'', 100), (''1.2.3.4:2301'', 20), (''10.0.0.1:9000'', 95)],
                 Config = cfg60\<rparr> 110000000000
       = GetActive \<lparr>Entries = [(''10.0.0.1:9000'', 95), (''1.2.3.4:2301'', 20), (''9.9.9.9:2000'', 100)],
                   Config = cfg60\<rparr> 110000000000"
proof -
  let ?s = "\<lparr>Entries = [(''9.9.9.9:2000'', 100), (''1.2.3.4:2301'', 20), (''10.0.0.1:9000'', 95)],
             Config = cfg60\<rparr>"
  let ?s' = "\<lparr>Entries = [(''10.0.0.1:9000'', 95), (''1.2.3.4:2301'', 20), (''9.9.9.9:2000'', 100)],
              Config = cfg60\<rparr>"
  have h1: "entries_ok ?s" by (simp add: entries_ok_def)
  have h2: "duration_ok (StaleTimeout (Config ?s))" by (simp add: duration_ok_def cfg60_def)
  have h3: "entries_ok ?s' \<and> map_of (Entries ?s') = map_of (Entries ?s) \<and> Config ?s' = Config ?s"
    by (auto simp: entries_ok_def)
  have g: "GetActive ?s 110000000000 = [''10.0.0.1:9000'', ''9.9.9.9:2000'']"
    by (simp add: GetActive_def cfg60_def Unix_def Add_def neg64_def wrap64_def less_char_def
        less_eq_char_def)
  from GetActive_sorted_union [OF h1 h2, of 110000000000] h3
  have "GetActive ?s' 110000000000 = GetActive ?s 110000000000" by blast
  with h1 h2 g show ?thesis by simp
qed

text \<open>
  C2, as written, fails at the boundary. With a timeout of 60 seconds, an entry reported
  at time 0 and absent from the official list is still listed at query time 60 s, which
  is \<open>t0 + T\<close>: the comparison \<open>ts \<ge> cutoff\<close> keeps the boundary second.
\<close>

theorem staleness_boundary_counterexample:
  "(0::int) + StaleTimeout cfg60 \<le> 60000000000
   \<and> ''1.2.3.4:2301'' \<notin> set (OfficialServers cfg60)
   \<and> ''1.2.3.4:2301'' \<in> set (GetActive (Report (NewServerList cfg60) ''1.2.3.4'' 2301 0) 60000000000)"
  by (simp add: set_GetActive cfg60_def Report_def NewServerList_def Sprintf_addr_def itoa_def
        utoa_2301 Unix_def Add_def neg64_def wrap64_def)


text \<open>
  C2, amended. Let \<open>T\<close> be the timeout, an entry outside the official list be reported
  at \<open>t0\<close>, then any sweeps run at times up to the query time \<open>q\<close>. The entry is
  listed at \<open>q\<close> exactly when the second of \<open>q - T\<close> is at most the second of \<open>t0\<close>,
  whatever the sweeps were. So it is listed for every \<open>q \<le> t0 + T\<close>, the boundary
  included, and not listed for every \<open>q \<ge> t0 + T + 1 s\<close>.
\<close>

theorem staleness_boundary:
  assumes ok: "entries_ok s0"
    and T: "StaleTimeout (Config s0) = T" "duration_ok T"
    and off: "Sprintf_addr ip port \<notin> set (OfficialServers (Config s0))"
    and ticks: "\<forall>t\<in>set ticks. t \<le> q"
  shows "(Sprintf_addr ip port \<in> set (GetActive (sweeps (Report s0 ip port t0) ticks) q)
            \<longleftrightarrow> Unix (q - T) \<le> Unix t0)
         \<and> (q \<le> t0 + T \<longrightarrow> Sprintf_addr ip port \<in> set (GetActive (sweeps (Report s0 ip port t0) ticks) q))
         \<and> (t0 + T + 1000000000 \<le> q \<longrightarrow> Sprintf_addr ip port \<notin> set (GetActive (sweeps (Report s0 ip port t0) ticks) q))"
proof -
  let ?addr = "Sprintf_addr ip port"
  let ?s1 = "Report s0 ip port t0"
  let ?s = "sweeps ?s1 ticks"
  have cut: "Unix (Add t (neg64 (StaleTimeout (Config s0)))) = Unix (t - T)" for t
    using T by (simp add: cutoff_in_range)
  have cfg1: "Config ?s1 = Config s0" by simp
  have ok1: "entries_ok ?s1" using ok by (rule entries_ok_Report)
  then have d1: "distinct (map fst (Entries ?s1))" by (simp add: entries_ok_def)
  have "map_of (Entries ?s1) ?addr = Some (Unix t0)"
    by (simp add: Report_def Let_def AList.update_conv')
  then have in1: "(?addr, Unix t0) \<in> set (Entries ?s1)" by (rule map_of_SomeD)
  have mem: "?addr \<in> set (GetActive ?s q) \<longleftrightarrow> (\<exists>ts. (?addr, ts) \<in> set (Entries ?s) \<and> Unix (q - T) \<le> ts)"
    using off by (simp add: set_GetActive cut)
  have iff: "?addr \<in> set (GetActive ?s q) \<longleftrightarrow> Unix (q - T) \<le> Unix t0"
  proof
    assume "?addr \<in> set (GetActive ?s q)"
    with mem obtain ts where ts: "(?addr, ts) \<in> set (Entries ?s)" "Unix (q - T) \<le> ts" by blast
    from ts(1) set_sweeps_subset [of ?s1 ticks] have "(?addr, ts) \<in> set (Entries ?s1)" by blast
    with d1 in1 have "Unix t0 = ts" by (rule eq_key_imp_eq_value)
    with ts(2) show "Unix (q - T) \<le> Unix t0" by simp
  next
    assume live: "Unix (q - T) \<le> Unix t0"
    have "\<forall>t\<in>set ticks. Unix (Add t (neg64 (StaleTimeout (Config ?s1)))) \<le> Unix t0"
      unfolding cfg1
    proof
      fix t assume "t \<in> set ticks"
      with ticks have "t - T \<le> q - T" by simp
      then have "Unix (t - T) \<le> Unix (q - T)" by (rule Unix_mono)
      with live show "Unix (Add t (neg64 (StaleTimeout (Config s0)))) \<le> Unix t0"
        by (simp only: cut)
    qed
    with ok1 in1 have "(?addr, Unix t0) \<in> set (Entries ?s)" by (rule live_survives_sweeps)
    with live mem show "?addr \<in> set (GetActive ?s q)" by blast
  qed
  have early: "Unix (q - T) \<le> Unix t0" if "q \<le> t0 + T"
    using that by (intro Unix_mono) simp
  have late: "\<not> Unix (q - T) \<le> Unix t0" if "t0 + T + 1000000000 \<le> q"
  proof -
    from that have "t0 + 1000000000 \<le> q - T" by simp
    then have "Unix (t0 + 1000000000) \<le> Unix (q - T)" by (rule Unix_mono)
    moreover have "Unix (t0 + 1000000000) = Unix t0 + 1" by (simp add: Unix_def)
    ultimately show ?thesis by simp
  qed
  from iff early late show ?thesis by blast
qed


theorem staleness_boundary_witness:
  "entries_ok (NewServerList cfg60) \<and> StaleTimeout (Config (NewServerList cfg60)) = 60000000000
   \<and> duration_ok 60000000000
   \<and> Sprintf_addr ''1.2.3.4'' 2301 \<notin> set (OfficialServers (Config (NewServerList cfg60)))
   \<and> (30000000000::int) \<le> 60000000000 \<and> (60000000000::int) \<le> 60000000000
   \<and> Sprintf_addr ''1.2.3.4'' 2301 \<in> set (GetActive (sweeps (Report (NewServerList cfg60) ''1.2.3.4'' 2301 0)
          [30000000000, 60000000000]) 60000000000)"
proof -
  have h1: "entries_ok (NewServerList cfg60)" by (rule entries_ok_New)
  have h2: "StaleTimeout (Config (NewServerList cfg60)) = 60000000000"
    by (simp add: NewServerList_def cfg60_def)
  have h3: "duration_ok 60000000000" by (simp add: duration_ok_def)
  have h4: "Sprintf_addr ''1.2.3.4'' 2301 \<notin> set (OfficialServers (Config (NewServerList cfg60)))"
    by (simp add: NewServerList_def cfg60_def Sprintf_addr_def itoa_def utoa_2301)
  have h5: "\<forall>t\<in>set [30000000000, 60000000000]. t \<le> (60000000000::int)" by simp
  from staleness_boundary [OF h1 h2 h3 h4 h5, of 0]
  have "Sprintf_addr ''1.2.3.4'' 2301 \<in> set (GetActive (sweeps (Report (NewServerList cfg60) ''1.2.3.4'' 2301 0)
          [30000000000, 60000000000]) 60000000000)" by simp
  with h1 h2 h3 h4 show ?thesis by simp
qed

text \<open>
  C3. Two reports of the same address leave one entry for it, stamped with the second
  of the later call: the second report overwrites the first, so the map is the one a
  single report at the later time would give. This holds for any two clock readings.
\<close>

theorem Report_twice_overwrites:
  assumes "entries_ok s"
  shows "map_of (Entries (Report (Report s ip port t1) ip port t2)) (Sprintf_addr ip port) = Some (Unix t2)
         \<and> length (filter (\<lambda>(k, ts). k = Sprintf_addr ip port)
                     (Entries (Report (Report s ip port t1) ip port t2))) = 1
         \<and> Report (Report s ip port t1) ip port t2 = Report s ip port t2"
proof -
  let ?addr = "Sprintf_addr ip port"
  let ?s2 = "Report (Report s ip port t1) ip port t2"
  have e: "?s2 = Report s ip port t2"
    by (simp add: Report_def Let_def)
  have m: "map_of (Entries ?s2) ?addr = Some (Unix t2)"
    by (simp add: Report_def Let_def AList.update_conv')
  have "entries_ok ?s2"
    by (intro entries_ok_Report assms)
  then have d: "distinct (map fst (Entries ?s2))"
    by (simp add: entries_ok_def)
  from length_filter_key [OF d m] e m show ?thesis
    by simp
qed

theorem Report_twice_overwrites_witness:
  "entries_ok (NewServerList cfg60)
   \<and> map_of (Entries (Report (Report (NewServerList cfg60) ''1.2.3.4'' 2301 5000000000) ''1.2.3.4'' 2301 7500000000))
        ''1.2.3.4:2301'' = Some 7
   \<and> Entries (Report (Report (NewServerList cfg60) ''1.2.3.4'' 2301 5000000000) ''1.2.3.4'' 2301 7500000000)
        = [(''1.2.3.4:2301'', 7)]"
proof -
  have h: "entries_ok (NewServerList cfg60)" by (rule entries_ok_New)
  have a: "Sprintf_addr ''1.2.3.4'' 2301 = ''1.2.3.4:2301''"
    by (simp add: Sprintf_addr_def itoa_def utoa_2301)
  have u: "Unix 7500000000 = 7" by (simp add: Unix_def)
  have "Entries (Report (NewServerList cfg60) ''1.2.3.4'' 2301 7500000000) = [(''1.2.3.4:2301'', 7)]"
    by (simp add: Report_def NewServerList_def a u)
  with Report_twice_overwrites [OF h, of "''1.2.3.4''" 2301 5000000000 7500000000] h show ?thesis
    by (simp add: a u)
qed

text \<open>
  C4. An address of the official list is in every result of \<open>GetActive\<close>, whatever the
  map holds and whatever the time: in particular in every state that reports and sweeps
  lead to from a new registry.
\<close>

theorem official_always_active:
  assumes "a \<in> set (OfficialServers (Config s))"
  shows "a \<in> set (GetActive s now) \<and> a \<in> set (GetActive (run s evs) now)"
proof -
  have "Config (run s evs) = Config s" by (rule Config_run)
  with assms show ?thesis by (simp add: set_GetActive)
qed

theorem official_always_active_witness:
  "''10.0.0.1:9000'' \<in> set (OfficialServers (Config (NewServerList cfg60)))
   \<and> ''10.0.0.1:9000'' \<in> set (GetActive (NewServerList cfg60) 999000000000)
   \<and> ''10.0.0.1:9000'' \<in> set (GetActive (run (NewServerList cfg60)
         [(0, StepReport ''10.0.0.1'' 9000), (100000000000, StepSweep)]) 999000000000)"
proof -
  have h: "''10.0.0.1:9000'' \<in> set (OfficialServers (Config (NewServerList cfg60)))"
    by (simp add: NewServerList_def cfg60_def)
  from official_always_active [OF h] h show ?thesis by blast
qed




text \<open>
  C6. The sweep and \<open>GetActive\<close> use the same cutoff: sweeping at time \<open>t\<close> and then
  listing at \<open>t\<close> gives the same list as listing at \<open>t\<close> without the sweep. The sweep
  keeps exactly the entries whose timestamp is at least the cutoff, and \<open>GetActive\<close>
  lists exactly the keys the sweep keeps, together with the official addresses: an
  entry stamped with the cutoff second itself is kept and listed.
\<close>

theorem GetActive_after_cleanupTick:
  assumes "entries_ok s"
  shows "GetActive (cleanupTick s t) t = GetActive s t
         \<and> Entries (cleanupTick s t)
             = filter (\<lambda>(addr, ts). ts \<ge> Unix (Add t (neg64 (StaleTimeout (Config s))))) (Entries s)
         \<and> set (GetActive s t)
             = fst ` set (Entries (cleanupTick s t)) \<union> set (OfficialServers (Config s))"
proof -
  let ?c = "Unix (Add t (neg64 (StaleTimeout (Config s))))"
  have d: "distinct (map fst (Entries s))" using assms by (simp add: entries_ok_def)
  have e: "Entries (cleanupTick s t) = filter (\<lambda>(addr, ts). ts \<ge> ?c) (Entries s)"
    by (rule Entries_cleanupTick_distinct [OF d])
  have "{a. \<exists>ts. (a, ts) \<in> set (Entries (cleanupTick s t)) \<and> ts \<ge> ?c}
        = {a. \<exists>ts. (a, ts) \<in> set (Entries s) \<and> ts \<ge> ?c}"
    by (auto simp: e)
  then have g: "GetActive (cleanupTick s t) t = GetActive s t" by (simp add: GetActive_eq)
  have "fst ` set (filter (\<lambda>(addr, ts). ts \<ge> ?c) (Entries s))
        = {a. \<exists>ts. (a, ts) \<in> set (Entries s) \<and> ts \<ge> ?c}"
    by force
  then have k: "set (GetActive s t)
      = fst ` set (Entries (cleanupTick s t)) \<union> set (OfficialServers (Config s))"
    by (simp only: set_GetActive e)
  from g e k show ?thesis by (intro conjI)
qed


theorem GetActive_after_cleanupTick_witness:
  "entries_ok \<lparr>Entries = [(''9.9.9.9:2000'', 100), (''1.2.3.4:2301'', 20), (''5.5.5.5:3000'', 50)],
               Config = cfg60\<rparr>
   \<and> Unix (Add 110000000000 (neg64 (StaleTimeout cfg60))) = 50
   \<and> Entries (cleanupTick \<lparr>Entries = [(''9.9.9.9:2000'', 100), (''1.2.3.4:2301'', 20),
                                       (''5.5.5.5:3000'', 50)], Config = cfg60\<rparr>
         110000000000) = [(''9.9.9.9:2000'', 100), (''5.5.5.5:3000'', 50)]
   \<and> GetActive (cleanupTick \<lparr>Entries = [(''9.9.9.9:2000'', 100), (''1.2.3.4:2301'', 20),
                                       (''5.5.5.5:3000'', 50)], Config = cfg60\<rparr>
         110000000000) 110000000000
     = GetActive \<lparr>Entries = [(''9.9.9.9:2000'', 100), (''1.2.3.4:2301'', 20), (''5.5.5.5:3000'', 50)],
                  Config = cfg60\<rparr> 110000000000
   \<and> set (GetActive \<lparr>Entries = [(''9.9.9.9:2000'', 100), (''1.2.3.4:2301'', 20), (''5.5.5.5:3000'', 50)],
                  Config = cfg60\<rparr> 110000000000)
     = {''9.9.9.9:2000'', ''5.5.5.5:3000'', ''10.0.0.1:9000''}"
proof -
  let ?s = "\<lparr>Entries = [(''9.9.9.9:2000'', 100), (''1.2.3.4:2301'', 20), (''5.5.5.5:3000'', 50)],
             Config = cfg60\<rparr>"
  have h: "entries_ok ?s" by (simp add: entries_ok_def)
  have c: "Unix (Add 110000000000 (neg64 (StaleTimeout cfg60))) = 50"
    by (simp add: cfg60_def Unix_def Add_def neg64_def wrap64_def)
  have e: "Entries (cleanupTick ?s 110000000000) = [(''9.9.9.9:2000'', 100), (''5.5.5.5:3000'', 50)]"
    by (simp add: cleanupTick_def cfg60_def Unix_def Add_def neg64_def wrap64_def)
  have o: "OfficialServers (Config ?s) = [''10.0.0.1:9000'']" by (simp add: cfg60_def)
  note t = GetActive_after_cleanupTick [OF h, of 110000000000]
  from t have g: "GetActive (cleanupTick ?s 110000000000) 110000000000 = GetActive ?s 110000000000"
    by (rule conjunct1)
  from t [THEN conjunct2, THEN conjunct2]
  have k: "set (GetActive ?s 110000000000) = {''9.9.9.9:2000'', ''5.5.5.5:3000'', ''10.0.0.1:9000''}"
    by (simp only: e o) auto
  from h c e g k show ?thesis by (intro conjI)
qed

text \<open>
  C7. Along a run from a new registry whose clock readings never decrease, a step never
  lowers the timestamp of an entry that is present before and after it: a report
  stores a second at least as large as the one it replaces, and a sweep leaves every
  entry it keeps with the timestamp it had.
\<close>

theorem no_timestamp_decrease:
  assumes "sorted (map fst (evs @ [(t, st)]))"
    and "map_of (Entries (run (NewServerList cfg) evs)) addr = Some a"
    and "map_of (Entries (step (run (NewServerList cfg) evs) (t, st))) addr = Some b"
  shows "a \<le> b \<and> (st = StepSweep \<longrightarrow> a = b)"
proof -
  let ?s = "run (NewServerList cfg) evs"
  have ok: "entries_ok ?s" by (intro entries_ok_run entries_ok_New)
  then have d: "distinct (map fst (Entries ?s))" by (simp add: entries_ok_def)
  from assms(1) have srt: "sorted (map fst evs)" and le: "\<forall>x\<in>set evs. fst x \<le> t"
    by (auto simp: sorted_append)
  from assms(2) have ina: "(addr, a) \<in> set (Entries ?s)" by (rule map_of_SomeD)
  from run_stamps [OF srt ina] have ne: "evs \<noteq> []" and "a \<le> Unix (fst (last evs))" by simp_all
  moreover from ne le have "Unix (fst (last evs)) \<le> Unix t" by (intro Unix_mono) simp
  ultimately have at: "a \<le> Unix t" by simp
  show ?thesis
  proof (cases st)
    case (StepReport ip port)
    from assms(3) have "((map_of (Entries ?s))(Sprintf_addr ip port \<mapsto> Unix t)) addr = Some b"
      by (simp add: StepReport Report_def Let_def AList.update_conv')
    with assms(2) at have "a \<le> b" by (auto split: if_splits)
    with StepReport show ?thesis by simp
  next
    case StepSweep
    from assms(3) have "(addr, b) \<in> set (Entries (cleanupTick ?s t))"
      by (simp add: StepSweep map_of_SomeD)
    with set_cleanupTick_subset [of ?s t] have "(addr, b) \<in> set (Entries ?s)" by blast
    with d ina have "a = b" by (rule eq_key_imp_eq_value)
    then show ?thesis by simp
  qed
qed

theorem no_timestamp_decrease_witness:
  "sorted (map fst ([(1000000000::int, StepReport ''1.2.3.4'' 2301), (2000000000, StepSweep)]
                    @ [(5000000000, StepReport ''1.2.3.4'' 2301)]))
   \<and> map_of (Entries (run (NewServerList cfg60)
         [(1000000000, StepReport ''1.2.3.4'' 2301), (2000000000, StepSweep)])) ''1.2.3.4:2301'' = Some 1
   \<and> map_of (Entries (step (run (NewServerList cfg60)
         [(1000000000, StepReport ''1.2.3.4'' 2301), (2000000000, StepSweep)])
         (5000000000, StepReport ''1.2.3.4'' 2301))) ''1.2.3.4:2301'' = Some 5
   \<and> (1::int) \<le> 5"
proof -
  let ?evs = "[(1000000000::int, StepReport ''1.2.3.4'' 2301), (2000000000, StepSweep)]"
  have a: "Sprintf_addr ''1.2.3.4'' 2301 = ''1.2.3.4:2301''"
    by (simp add: Sprintf_addr_def itoa_def utoa_2301)
  have r: "Entries (run (NewServerList cfg60) ?evs) = [(''1.2.3.4:2301'', 1)]"
    by (simp add: run_def Report_def NewServerList_def cleanupTick_def a cfg60_def Unix_def Add_def
          neg64_def wrap64_def)
  have h1: "sorted (map fst (?evs @ [(5000000000, StepReport ''1.2.3.4'' 2301)]))" by simp
  have h2: "map_of (Entries (run (NewServerList cfg60) ?evs)) ''1.2.3.4:2301'' = Some 1"
    by (simp add: r)
  have h3: "map_of (Entries (step (run (NewServerList cfg60) ?evs)
         (5000000000, StepReport ''1.2.3.4'' 2301))) ''1.2.3.4:2301'' = Some 5"
    by (simp add: Report_def r a Unix_def)
  from no_timestamp_decrease [OF h1 h2 h3] h1 h2 h3 show ?thesis by blast
qed

text \<open>
  C8. The claim does not hold of the code. A client that connects over IPv6 from
  \<open>[::1]:50000\<close> and sends a valid report for port 2301 passes every check of the
  endpoint, and \<open>Report\<close> stores the key \<open>::1:2301\<close>: the host is written without its
  brackets. That key is not a valid \<open>host:port\<close> string: \<open>SplitHostPort\<close> refuses it.
\<close>

theorem ipv6_key_not_hostport:
  "Method req_v6 = ''POST'' \<and> UserAgent req_v6 = AllowedUserAgent cfg60
   \<and> Form req_v6 = Some [(''port'', ''2301'')]
   \<and> Atoi (FormValue [(''port'', ''2301'')] ''port'') = Some 2301
   \<and> SplitHostPort (RemoteAddr req_v6) = Some (''::1'', ''50000'')
   \<and> \<not> blacklisted cfg60 ''::1'' \<and> ParseIP lib0 ''::1''
   \<and> fst (report_php lib0 cfg60 app0 req_v6 0 0) = 200
   \<and> Entries (servers (serve lib0 cfg60 [EvReport req_v6 0 0])) = [(''::1:2301'', 0)]
   \<and> SplitHostPort ''::1:2301'' = None
   \<and> \<not> valid_hostport lib0 ''::1:2301''"
proof -
  have req: "Method req_v6 = ''POST'' \<and> UserAgent req_v6 = AllowedUserAgent cfg60
      \<and> Form req_v6 = Some [(''port'', ''2301'')]
      \<and> Atoi (FormValue [(''port'', ''2301'')] ''port'') = Some 2301
      \<and> SplitHostPort (RemoteAddr req_v6) = Some (''::1'', ''50000'')
      \<and> \<not> blacklisted cfg60 ''::1'' \<and> ParseIP lib0 ''::1''"
    by (simp add: req_v6_def cfg60_def FormValue_def Atoi_2301 split_v6 blacklisted_def lib0_def)
  have res: "report_php lib0 cfg60 app0 req_v6 0 0
      = (200, \<lparr>servers = \<lparr>Entries = [(''::1:2301'', 0)], Config = cfg60\<rparr>,
                rateLimitMap = [(''::1'', [0])]\<rparr>)"
    by (simp add: report_php_def securityMiddleware_def reportHandler_def req_v6_def app0_def
        split_v6 checkRateLimit_first FormValue_def Atoi_2301 cfg60_def blacklisted_def lib0_def
        Report_def NewServerList_def Sprintf_addr_def itoa_def utoa_2301 Unix_def quot_def)
  have st: "fst (report_php lib0 cfg60 app0 req_v6 0 0) = 200" by (simp add: res)
  have "serve lib0 cfg60 [EvReport req_v6 0 0] = snd (report_php lib0 cfg60 app0 req_v6 0 0)"
    by (simp add: serve_def app0_def)
  then have key: "Entries (servers (serve lib0 cfg60 [EvReport req_v6 0 0])) = [(''::1:2301'', 0)]"
    by (simp add: res)
  have bad: "\<not> valid_hostport lib0 ''::1:2301''"
    by (simp add: valid_hostport_def split_bare_v6)
  from req st key split_bare_v6 bad show ?thesis by (intro conjI) simp_all
qed

text \<open>
  C9, as written, fails in two ways. A request with a valid method, identifier and port
  whose remote address does not split is answered 400 by the security middleware, not
  200; and a blacklisted address that has used up its sixty requests of the minute is
  answered 429.
\<close>

theorem silent_ack_counterexample:
  "Method req_malformed = ''POST'' \<and> UserAgent req_malformed = AllowedUserAgent cfg60
   \<and> Form req_malformed = Some [(''port'', ''2301'')]
   \<and> Atoi (FormValue [(''port'', ''2301'')] ''port'') = Some 2301
   \<and> SplitHostPort (RemoteAddr req_malformed) = None
   \<and> report_php lib0 cfg60 app0 req_malformed 0 0 = (400, app0)
   \<and> Method req_blacklisted = ''POST'' \<and> UserAgent req_blacklisted = AllowedUserAgent cfg60
   \<and> Form req_blacklisted = Some [(''port'', ''2301'')]
   \<and> SplitHostPort (RemoteAddr req_blacklisted) = Some (''6.6.6.6'', ''50000'')
   \<and> blacklisted cfg60 ''6.6.6.6''
   \<and> serve lib0 cfg60 (replicate 60 (EvReport req_blacklisted 0 0)) = app_busy
   \<and> fst (report_php lib0 cfg60 app_busy req_blacklisted 0 0) = 429"
proof -
  have malformed: "Method req_malformed = ''POST'' \<and> UserAgent req_malformed = AllowedUserAgent cfg60
      \<and> Form req_malformed = Some [(''port'', ''2301'')]
      \<and> Atoi (FormValue [(''port'', ''2301'')] ''port'') = Some 2301
      \<and> SplitHostPort (RemoteAddr req_malformed) = None
      \<and> report_php lib0 cfg60 app0 req_malformed 0 0 = (400, app0)"
    by (simp add: req_malformed_def cfg60_def FormValue_def Atoi_2301 split_malformed
        report_php_def securityMiddleware_def)
  have limited: "Method req_blacklisted = ''POST'' \<and> UserAgent req_blacklisted = AllowedUserAgent cfg60
      \<and> Form req_blacklisted = Some [(''port'', ''2301'')]
      \<and> SplitHostPort (RemoteAddr req_blacklisted) = Some (''6.6.6.6'', ''50000'')
      \<and> blacklisted cfg60 ''6.6.6.6''
      \<and> fst (report_php lib0 cfg60 app_busy req_blacklisted 0 0) = 429"
    by (simp add: req_blacklisted_def cfg60_def split_blacklisted report_php_def
        securityMiddleware_def blacklisted_def app_busy_def checkRateLimit_def Unix_def quot_def
        maxRequestsPerMinute_def Let_def)
  from malformed limited busy_reachable show ?thesis by simp
qed

text \<open>
  C9, amended. Take a request with the right method and identifier and a valid port.
  The handler of \<open>/report.php\<close> by itself answers 200 and leaves the state unchanged
  when the remote address does not split or its host is blacklisted. Behind the
  security middleware, a remote address that does not split is answered 400 before the
  handler runs; a blacklisted host is answered 200 when the rate limiter lets the
  request through and 429 otherwise. A host that is neither blacklisted nor an IP
  literal is answered 400. In none of these cases is \<open>Report\<close> called: the registry is
  unchanged.
\<close>

theorem blacklisted_silently_acknowledged:
  assumes "Method r = ''POST''" and "UserAgent r = AllowedUserAgent cfg"
    and "Form r = Some form" and "Atoi (FormValue form ''port'') = Some port"
    and "1024 \<le> port" and "port \<le> 65535"
  shows "(SplitHostPort (RemoteAddr r) = None \<longrightarrow>
            reportHandler lib cfg app r clock = (200, app)
            \<and> report_php lib cfg app r clockRL clock = (400, app))
         \<and> (\<forall>ip p. SplitHostPort (RemoteAddr r) = Some (ip, p) \<and> blacklisted cfg ip \<longrightarrow>
              reportHandler lib cfg app r clock = (200, app)
              \<and> servers (snd (report_php lib cfg app r clockRL clock)) = servers app
              \<and> fst (report_php lib cfg app r clockRL clock)
                  = (if fst (checkRateLimit (rateLimitMap app) ip clockRL) then 200 else 429))
         \<and> (\<forall>ip p. SplitHostPort (RemoteAddr r) = Some (ip, p) \<and> \<not> blacklisted cfg ip
                    \<and> \<not> ParseIP lib ip \<longrightarrow>
              reportHandler lib cfg app r clock = (400, app)
              \<and> servers (snd (report_php lib cfg app r clockRL clock)) = servers app
              \<and> fst (report_php lib cfg app r clockRL clock)
                  = (if fst (checkRateLimit (rateLimitMap app) ip clockRL) then 400 else 429))"
proof -
  from assms(4) have ne: "FormValue form ''port'' \<noteq> []" by (auto simp: Atoi_Nil)
  have h: "reportHandler lib cfg a r clock = (200, a)"
    if "SplitHostPort (RemoteAddr r) = None
        \<or> (\<exists>ip p. SplitHostPort (RemoteAddr r) = Some (ip, p) \<and> blacklisted cfg ip)" for a
    using that assms ne by (auto simp: reportHandler_def Let_def)
  have 1: "report_php lib cfg app r clockRL clock = (400, app)"
    if "SplitHostPort (RemoteAddr r) = None"
    using that by (simp add: report_php_def securityMiddleware_def)
  have 2: "servers (snd (report_php lib cfg app r clockRL clock)) = servers app
           \<and> fst (report_php lib cfg app r clockRL clock)
                  = (if fst (checkRateLimit (rateLimitMap app) ip clockRL) then 200 else 429)"
    if s: "SplitHostPort (RemoteAddr r) = Some (ip, p)" and b: "blacklisted cfg ip" for ip p
  proof -
    obtain ok rl where c: "checkRateLimit (rateLimitMap app) ip clockRL = (ok, rl)"
      by (cases "checkRateLimit (rateLimitMap app) ip clockRL")
    have "reportHandler lib cfg (app\<lparr>rateLimitMap := rl\<rparr>) r clock = (200, app\<lparr>rateLimitMap := rl\<rparr>)"
      using s b by (intro h) blast
    then show ?thesis
      by (simp add: report_php_def securityMiddleware_def s c)
  qed
  have h': "reportHandler lib cfg a r clock = (400, a)"
    if "SplitHostPort (RemoteAddr r) = Some (ip, p)" "\<not> blacklisted cfg ip" "\<not> ParseIP lib ip"
    for a ip p
    using that assms ne by (auto simp: reportHandler_def Let_def)
  have 3: "servers (snd (report_php lib cfg app r clockRL clock)) = servers app
           \<and> fst (report_php lib cfg app r clockRL clock)
                  = (if fst (checkRateLimit (rateLimitMap app) ip clockRL) then 400 else 429)"
    if s: "SplitHostPort (RemoteAddr r) = Some (ip, p)" and b: "\<not> blacklisted cfg ip"
      and n: "\<not> ParseIP lib ip" for ip p
  proof -
    obtain ok rl where c: "checkRateLimit (rateLimitMap app) ip clockRL = (ok, rl)"
      by (cases "checkRateLimit (rateLimitMap app) ip clockRL")
    have "reportHandler lib cfg (app\<lparr>rateLimitMap := rl\<rparr>) r clock = (400, app\<lparr>rateLimitMap := rl\<rparr>)"
      using s b n by (rule h')
    then show ?thesis
      by (simp add: report_php_def securityMiddleware_def s c)
  qed
  have A: "SplitHostPort (RemoteAddr r) = None \<longrightarrow>
            reportHandler lib cfg app r clock = (200, app)
            \<and> report_php lib cfg app r clockRL clock = (400, app)"
    using h [of app] 1 by blast
  have B: "\<forall>ip p. SplitHostPort (RemoteAddr r) = Some (ip, p) \<and> blacklisted cfg ip \<longrightarrow>
              reportHandler lib cfg app r clock = (200, app)
              \<and> servers (snd (report_php lib cfg app r clockRL clock)) = servers app
              \<and> fst (report_php lib cfg app r clockRL clock)
                  = (if fst (checkRateLimit (rateLimitMap app) ip clockRL) then 200 else 429)"
    using h [of app] 2 by blast
  have C: "\<forall>ip p. SplitHostPort (RemoteAddr r) = Some (ip, p) \<and> \<not> blacklisted cfg ip
                    \<and> \<not> ParseIP lib ip \<longrightarrow>
              reportHandler lib cfg app r clock = (400, app)
              \<and> servers (snd (report_php lib cfg app r clockRL clock)) = servers app
              \<and> fst (report_php lib cfg app r clockRL clock)
                  = (if fst (checkRateLimit (rateLimitMap app) ip clockRL) then 400 else 429)"
    using h' [of _ _ app] 3 by blast
  from A B C show ?thesis by (intro conjI)
qed

theorem blacklisted_silently_acknowledged_witness:
  "Method req_blacklisted = ''POST'' \<and> UserAgent req_blacklisted = AllowedUserAgent cfg60
   \<and> Form req_blacklisted = Some [(''port'', ''2301'')]
   \<and> Atoi (FormValue [(''port'', ''2301'')] ''port'') = Some 2301
   \<and> (1024::int) \<le> 2301 \<and> (2301::int) \<le> 65535
   \<and> SplitHostPort (RemoteAddr req_blacklisted) = Some (''6.6.6.6'', ''50000'')
   \<and> blacklisted cfg60 ''6.6.6.6''
   \<and> fst (checkRateLimit (rateLimitMap app0) ''6.6.6.6'' 0)
   \<and> fst (report_php lib0 cfg60 app0 req_blacklisted 0 0) = 200
   \<and> servers (snd (report_php lib0 cfg60 app0 req_blacklisted 0 0)) = servers app0"
proof -
  have h1: "Method req_blacklisted = ''POST''" by (simp add: req_blacklisted_def)
  have h2: "UserAgent req_blacklisted = AllowedUserAgent cfg60"
    by (simp add: req_blacklisted_def cfg60_def)
  have h3: "Form req_blacklisted = Some [(''port'', ''2301'')]" by (simp add: req_blacklisted_def)
  have h4: "Atoi (FormValue [(''port'', ''2301'')] ''port'') = Some 2301"
    by (simp add: FormValue_def Atoi_2301)
  have h5: "(1024::int) \<le> 2301" "(2301::int) \<le> 65535" by simp_all
  have s: "SplitHostPort (RemoteAddr req_blacklisted) = Some (''6.6.6.6'', ''50000'')"
    by (simp add: req_blacklisted_def split_blacklisted)
  have b: "blacklisted cfg60 ''6.6.6.6''" by (simp add: blacklisted_def cfg60_def)
  have c: "fst (checkRateLimit (rateLimitMap app0) ''6.6.6.6'' 0)"
    by (simp add: app0_def checkRateLimit_first)
  from blacklisted_silently_acknowledged [OF h1 h2 h3 h4 h5, of lib0 app0 0 0] s b c
  have "fst (report_php lib0 cfg60 app0 req_blacklisted 0 0) = 200
        \<and> servers (snd (report_php lib0 cfg60 app0 req_blacklisted 0 0)) = servers app0"
    by simp
  with h1 h2 h3 h4 h5 s b c show ?thesis by simp
qed

text \<open>
  C10. When the path is refused, the file does not exist, cannot be read or cannot be
  parsed, \<open>loadConfig\<close> returns the default configuration, whatever the environment
  holds. Two environments can lead to different configurations only when a file was
  found, read and parsed, and only then can the result differ from the defaults.
\<close>

theorem loadConfig_defaults_ignore_env:
  "(Contains (Clean lib path) ''..''
      \<or> Stat fs (Clean lib path) = NotExist
      \<or> secureReadFile lib fs (Clean lib path) maxConfigFileSize = None
      \<or> (\<exists>data. secureReadFile lib fs (Clean lib path) maxConfigFileSize = Some data
            \<and> Unmarshal lib data = None)
     \<longrightarrow> fst (loadConfig lib fs getenv path) = defaultCfg)
   \<and> (fst (loadConfig lib fs getenv path) \<noteq> fst (loadConfig lib fs getenv' path)
     \<longrightarrow> config_loaded lib fs path)
   \<and> (fst (loadConfig lib fs getenv path) \<noteq> defaultCfg \<longrightarrow> config_loaded lib fs path)"
proof -
  have 1: "fst (loadConfig lib fs getenv path) = defaultCfg"
    if "Contains (Clean lib path) ''..''
      \<or> Stat fs (Clean lib path) = NotExist
      \<or> secureReadFile lib fs (Clean lib path) maxConfigFileSize = None
      \<or> (\<exists>data. secureReadFile lib fs (Clean lib path) maxConfigFileSize = Some data
            \<and> Unmarshal lib data = None)"
  proof -
    from that have "\<not> config_loaded lib fs path"
      by (auto simp: config_loaded_def Let_def)
    then show ?thesis by (rule loadConfig_not_loaded)
  qed
  have 2: "config_loaded lib fs path"
    if "fst (loadConfig lib fs getenv path) \<noteq> fst (loadConfig lib fs getenv' path)"
  proof (rule ccontr)
    assume n: "\<not> config_loaded lib fs path"
    from loadConfig_not_loaded [OF n, of getenv] loadConfig_not_loaded [OF n, of getenv'] that
    show False by simp
  qed
  have 3: "config_loaded lib fs path" if "fst (loadConfig lib fs getenv path) \<noteq> defaultCfg"
    using that loadConfig_not_loaded [of lib fs path getenv] by blast
  from 1 2 3 show ?thesis by blast
qed


theorem loadConfig_defaults_ignore_env_witness:
  "Stat fs_missing (Clean lib0 ''config.json'') = NotExist
   \<and> env_port ''LUSD_PORT'' = ''9090''
   \<and> fst (loadConfig lib0 fs_missing env_port ''config.json'') = defaultCfg
   \<and> Port defaultCfg = 80
   \<and> Port (fst (loadConfig lib0 fs_present env_port ''config.json'')) = 9090
   \<and> Port (fst (loadConfig lib0 fs_present env_empty ''config.json'')) = 8080
   \<and> config_loaded lib0 fs_present ''config.json''"
proof -
  have h: "Stat fs_missing (Clean lib0 ''config.json'') = NotExist"
    by (simp add: fs_missing_def)
  from loadConfig_defaults_ignore_env [of lib0 "''config.json''" fs_missing env_port] h
  have d: "fst (loadConfig lib0 fs_missing env_port ''config.json'') = defaultCfg" by blast
  have "fst (loadConfig lib0 fs_present env_port ''config.json'')
        \<noteq> fst (loadConfig lib0 fs_present env_empty ''config.json'')"
    using load_present_env_port load_present_env_empty by auto
  with loadConfig_defaults_ignore_env [of lib0 "''config.json''" fs_present env_port env_empty]
  have l: "config_loaded lib0 fs_present ''config.json''" by blast
  from h d l load_present_env_port load_present_env_empty show ?thesis
    by (simp add: env_port_def defaultCfg_def)
qed

end
